theory Spec2Isabelle
  imports Complex_Main "HOL-Library.AList"
begin

section \<open>Conventions of the embedding\<close>

text \<open>
  The Python sources compute with IEEE floats; here a float is a \<^typ>\<open>real\<close> and the
  arithmetic is exact. A float division whose divisor is zero has no real value: Python
  raises \<^verbatim>\<open>ZeroDivisionError\<close> on its own floats and numpy yields \<^verbatim>\<open>inf\<close> or
  \<^verbatim>\<open>nan\<close>. In the trading engine both are the fault \<open>ZeroDivision\<close>; the metrics
  of \<^verbatim>\<open>performance.py\<close>, which are only reported, keep \<^verbatim>\<open>inf\<close>, \<^verbatim>\<open>-inf\<close> and \<^verbatim>\<open>nan\<close>
  as values. The maximum or minimum of an empty pandas slice (\<^verbatim>\<open>nan\<close>, with which
  every comparison is false) is \<open>None\<close>. A computation of the engine that returns
  \<open>Inr\<close> is one that ran to its end on finite numbers.

  A \<^verbatim>\<open>datetime\<close> is the number of seconds since the start of day one of the
  proleptic Gregorian calendar. A DataFrame is the list of its rows under the default
  index \<open>0, 1, 2, \<dots>\<close>; a \<^verbatim>\<open>dict\<close> is an association list in insertion order.
\<close>

datatype fault = IndexError | KeyError | ZeroDivision

type_synonym symbol = string
type_synonym datetime = int

definition ebind :: "fault + 'a \<Rightarrow> ('a \<Rightarrow> fault + 'b) \<Rightarrow> fault + 'b" where
  "ebind m f = (case m of Inl e \<Rightarrow> Inl e | Inr x \<Rightarrow> f x)"

definition fdiv :: "real \<Rightarrow> real \<Rightarrow> fault + real" where
  "fdiv a b = (if b = 0 then Inl ZeroDivision else Inr (a / b))"

section \<open>backtest/position\_sizer.py\<close>

record PositionSizer =
  account_size :: real
  risk_per_trade_pct :: real
  stop_loss_pct :: real
  max_positions :: int
  max_position_size_pct :: real

text \<open>The dictionary returned by \<^verbatim>\<open>calculate_position_size\<close> (its \<^verbatim>\<open>reason\<close> text left out).\<close>

record sizing =
  sz_position_size_usd :: real
  sz_position_size_pct :: real
  sz_num_contracts :: real
  sz_risk_usd :: real
  can_open :: bool

definition calculate_position_size :: "PositionSizer \<Rightarrow> real \<Rightarrow> int \<Rightarrow> fault + sizing" where
  "calculate_position_size sz entry_price current_positions =
     (if \<not> current_positions < max_positions sz then
        Inr \<lparr>sz_position_size_usd = 0, sz_position_size_pct = 0, sz_num_contracts = 0,
             sz_risk_usd = 0, can_open = False\<rparr>
      else
        let risk_usd = account_size sz * risk_per_trade_pct sz in
        ebind (fdiv risk_usd (stop_loss_pct sz)) (\<lambda>position_size_usd.
        ebind (fdiv position_size_usd (account_size sz)) (\<lambda>position_size_pct.
          let capped = position_size_pct > max_position_size_pct sz;
              position_size_pct' = (if capped then max_position_size_pct sz else position_size_pct);
              position_size_usd' = (if capped then account_size sz * max_position_size_pct sz
                                    else position_size_usd);
              risk_usd' = (if capped then position_size_usd' * stop_loss_pct sz else risk_usd)
          in ebind (fdiv position_size_usd' entry_price) (\<lambda>num_contracts.
               Inr \<lparr>sz_position_size_usd = position_size_usd',
                    sz_position_size_pct = position_size_pct',
                    sz_num_contracts = num_contracts,
                    sz_risk_usd = risk_usd', can_open = True\<rparr>))))"

definition update_account_size :: "PositionSizer \<Rightarrow> real \<Rightarrow> PositionSizer" where
  "update_account_size sz new_size = sz\<lparr>account_size := new_size\<rparr>"

section \<open>Price frames\<close>

text \<open>
  One row of a symbol's DataFrame: the OHLC columns the engine reads and the two columns
  \<^verbatim>\<open>generate_entry_signals\<close> adds (the indicators behind them are not modelled,
  their outcome is part of the row).
\<close>

record row =
  timestamp :: datetime
  high :: real
  low :: real
  close :: real
  entry_signal :: bool
  signal_strength :: real

type_synonym frame = "row list"

text \<open>\<^verbatim>\<open>df[df['timestamp'] == d].index[0]\<close>: the first index at that timestamp, if any.\<close>

fun index_of :: "datetime \<Rightarrow> frame \<Rightarrow> nat option" where
  "index_of d [] = None"
| "index_of d (r # rs) = (if timestamp r = d then Some 0 else map_option Suc (index_of d rs))"

text \<open>\<^verbatim>\<open>Series.max()\<close> and \<^verbatim>\<open>Series.min()\<close>; \<open>None\<close> is the \<^verbatim>\<open>nan\<close> of an empty series.\<close>

fun list_max :: "real list \<Rightarrow> real option" where
  "list_max [] = None"
| "list_max (x # xs) = Some (fold max xs x)"

fun list_min :: "real list \<Rightarrow> real option" where
  "list_min [] = None"
| "list_min (x # xs) = Some (fold min xs x)"

text \<open>\<^verbatim>\<open>df.iloc[a:b+1]\<close> for indices \<open>a\<close>, \<open>b\<close> that are not negative.\<close>

definition iloc_slice :: "nat \<Rightarrow> nat \<Rightarrow> 'a list \<Rightarrow> 'a list" where
  "iloc_slice a b xs = take (Suc b - a) (drop a xs)"

text \<open>
  indicators/moving\_averages.py, \<^verbatim>\<open>calculate_sma\<close>: the value at index \<open>i\<close> of
  \<^verbatim>\<open>rolling(window=period).mean()\<close>, \<^verbatim>\<open>nan\<close> while the window is not full.
\<close>

definition calculate_sma :: "nat \<Rightarrow> real list \<Rightarrow> nat \<Rightarrow> real option" where
  "calculate_sma period xs i =
     (if period = 0 \<or> Suc i < period \<or> length xs \<le> i then None
      else Some (sum_list (take period (drop (Suc i - period) xs)) / real period))"

section \<open>signals/exit\_signals.py\<close>

definition calculate_trailing_stop :: "real \<Rightarrow> real \<Rightarrow> real option \<Rightarrow> real \<Rightarrow> real option \<times> bool" where
  "calculate_trailing_stop entry_price current_price peak_price trailing_stop_pct =
     (let stop_level = map_option (\<lambda>p. p * (1 - trailing_stop_pct)) peak_price;
          stop_triggered = (case stop_level of None \<Rightarrow> False | Some l \<Rightarrow> current_price \<le> l)
      in (stop_level, stop_triggered))"

text \<open>The keys of an exit dictionary that \<^verbatim>\<open>_close_position\<close> reads.\<close>

record exit_details =
  ed_close :: real
  ed_timestamp :: datetime
  ed_holding_days :: int
  ed_exit_reason :: string

text \<open>
  The dictionary \<^verbatim>\<open>check_exit_signal\<close> returns has these keys as well. The frames the
  backtesters pass carry no moving-average column, so the function computes it with
  \<^verbatim>\<open>calculate_sma\<close> on every call.
\<close>

record signal_exit_details = exit_details +
  ed_exit_triggered :: bool
  ed_entry_price :: real
  ed_peak_price :: "real option"
  ed_stop_level :: "real option"
  ed_return_pct :: real
  ed_trailing_stop_triggered :: bool
  ed_ma_exit_triggered :: bool

definition check_exit_signal ::
  "frame \<Rightarrow> nat \<Rightarrow> nat \<Rightarrow> real \<Rightarrow> real \<Rightarrow> nat \<Rightarrow> bool \<Rightarrow> fault + (bool \<times> signal_exit_details)" where
  "check_exit_signal df entry_index current_index entry_price trailing_stop_pct ma_period use_ma_exit =
     (let position_df = iloc_slice entry_index current_index df;
          peak_price = list_max (map high position_df)
      in if length df \<le> current_index then Inl IndexError
         else
           let current_row = df ! current_index;
               current_price = close current_row;
               (stop_level, stop_triggered) =
                  calculate_trailing_stop entry_price current_price peak_price trailing_stop_pct;
               ma = calculate_sma ma_period (map close df) current_index;
               ma_exit_triggered =
                  (if use_ma_exit then (case ma of None \<Rightarrow> False | Some m \<Rightarrow> current_price < m)
                   else False);
               exit_triggered = (stop_triggered \<or> (use_ma_exit \<and> ma_exit_triggered));
               exit_reason = (if stop_triggered then ''trailing_stop''
                              else if ma_exit_triggered then ''ma_exit'' else ''none'')
           in ebind (fdiv (current_price - entry_price) entry_price) (\<lambda>return_pct.
                Inr (exit_triggered,
                     \<lparr>ed_close = current_price, ed_timestamp = timestamp current_row,
                      ed_holding_days = int current_index - int entry_index,
                      ed_exit_reason = exit_reason,
                      ed_exit_triggered = exit_triggered, ed_entry_price = entry_price,
                      ed_peak_price = peak_price, ed_stop_level = stop_level,
                      ed_return_pct = return_pct,
                      ed_trailing_stop_triggered = stop_triggered,
                      ed_ma_exit_triggered = ma_exit_triggered\<rparr>)))"

section \<open>backtest/backtester.py: data\<close>

record Position =
  symbol :: symbol
  entry_date :: datetime
  entry_index :: nat
  entry_price :: real
  position_size_usd :: real
  num_contracts :: real
  peak_price :: real
  peak_date :: datetime

definition update_peak :: "Position \<Rightarrow> real \<Rightarrow> datetime \<Rightarrow> Position" where
  "update_peak p price date =
     (if price > peak_price p then p\<lparr>peak_price := price, peak_date := date\<rparr> else p)"

text \<open>
  A completed trade. The fields a \<^verbatim>\<open>Trade\<close> shares with a \<^verbatim>\<open>Position\<close> carry the
  prefix \<open>t_\<close>; \<open>max_adverse_excursion\<close> is \<open>None\<close> when pandas gives \<^verbatim>\<open>nan\<close>.
\<close>

record Trade =
  t_symbol :: symbol
  t_entry_date :: datetime
  t_entry_price :: real
  exit_date :: datetime
  exit_price :: real
  t_position_size_usd :: real
  t_num_contracts :: real
  return_pct :: real
  return_usd :: real
  holding_days :: int
  exit_reason :: string
  t_peak_price :: real
  max_adverse_excursion :: "real option"

record equity_row =
  eq_date :: datetime
  eq_equity :: real
  eq_cash :: real
  eq_positions_value :: real
  eq_num_positions :: nat

text \<open>
  The constructor's arguments, which no method changes. The three the backtester shares
  with its sizer carry the prefix \<open>bt_\<close>.
\<close>

record params =
  initial_capital :: real
  bt_risk_per_trade_pct :: real
  bt_stop_loss_pct :: real
  bt_max_positions :: int
  commission_pct :: real
  slippage_pct :: real
  daily_loss_limit_pct :: real
  weekly_loss_limit_pct :: real

text \<open>The attributes the methods mutate.\<close>

record backtester =
  capital :: real
  sizer :: PositionSizer
  positions :: "(symbol \<times> Position) list"
  trades :: "Trade list"
  equity_history :: "equity_row list"
  daily_start_capital :: real
  weekly_start_capital :: real
  current_date :: "datetime option"
  current_week :: "int option"
  size_multiplier :: real
  daily_trading_stopped :: bool

definition init :: "params \<Rightarrow> backtester" where
  "init cfg =
     \<lparr>capital = initial_capital cfg,
      sizer = \<lparr>account_size = initial_capital cfg,
               risk_per_trade_pct = bt_risk_per_trade_pct cfg,
               stop_loss_pct = bt_stop_loss_pct cfg,
               max_positions = bt_max_positions cfg,
               max_position_size_pct = 20 / 100\<rparr>,
      positions = [], trades = [], equity_history = [],
      daily_start_capital = initial_capital cfg,
      weekly_start_capital = initial_capital cfg,
      current_date = None, current_week = None,
      size_multiplier = 1, daily_trading_stopped = False\<rparr>"

section \<open>The ISO week of a datetime\<close>

text \<open>
  \<^verbatim>\<open>current_date.isocalendar()[1]\<close>, after the standard library's \<^verbatim>\<open>datetime\<close>
  module (\<^verbatim>\<open>_days_before_year\<close>, \<^verbatim>\<open>_ord2ymd\<close>, \<^verbatim>\<open>_isoweek1monday\<close>,
  \<^verbatim>\<open>isocalendar\<close>).
\<close>

definition toordinal :: "datetime \<Rightarrow> int" where
  "toordinal d = d div 86400 + 1"

definition days_before_year :: "int \<Rightarrow> int" where
  "days_before_year year =
     (let y = year - 1 in y * 365 + y div 4 - y div 100 + y div 400)"

definition year_of_ordinal :: "int \<Rightarrow> int" where
  "year_of_ordinal n0 =
     (let n = n0 - 1;
          n400 = n div 146097; n = n mod 146097;
          n100 = n div 36524; n = n mod 36524;
          n4 = n div 1461; n = n mod 1461;
          n1 = n div 365;
          year = n400 * 400 + 1 + n100 * 100 + n4 * 4 + n1
      in if n1 = 4 \<or> n100 = 4 then year - 1 else year)"

definition isoweek1monday :: "int \<Rightarrow> int" where
  "isoweek1monday year =
     (let firstday = days_before_year year + 1;
          firstweekday = (firstday + 6) mod 7;
          week1monday = firstday - firstweekday
      in if firstweekday > 3 then week1monday + 7 else week1monday)"

definition isocalendar_week :: "datetime \<Rightarrow> int" where
  "isocalendar_week d =
     (let today = toordinal d;
          year = year_of_ordinal today;
          week = (today - isoweek1monday year) div 7
      in if week < 0 then (today - isoweek1monday (year - 1)) div 7 + 1
         else if week \<ge> 52 \<and> today \<ge> isoweek1monday (year + 1) then 1
         else week + 1)"

section \<open>backtest/backtester.py: risk limits\<close>

definition check_daily_loss_limit :: "params \<Rightarrow> datetime \<Rightarrow> backtester \<Rightarrow> fault + (bool \<times> backtester)" where
  "check_daily_loss_limit cfg d s =
     (let s1 = (if current_date s \<noteq> Some d
                then s\<lparr>current_date := Some d, daily_start_capital := capital s,
                       daily_trading_stopped := False\<rparr>
                else s)
      in if daily_trading_stopped s1 then Inr (True, s1)
         else ebind (fdiv (capital s1 - daily_start_capital s1) (daily_start_capital s1))
                (\<lambda>daily_loss_pct.
                   if daily_loss_pct \<le> - daily_loss_limit_pct cfg
                   then Inr (True, s1\<lparr>daily_trading_stopped := True\<rparr>)
                   else Inr (False, s1)))"

definition check_weekly_loss_limit :: "params \<Rightarrow> datetime \<Rightarrow> backtester \<Rightarrow> fault + backtester" where
  "check_weekly_loss_limit cfg d s =
     (let week = isocalendar_week d;
          s1 = (if current_week s \<noteq> Some week
                then s\<lparr>current_week := Some week, weekly_start_capital := capital s,
                       size_multiplier := 1\<rparr>
                else s)
      in ebind (fdiv (capital s1 - weekly_start_capital s1) (weekly_start_capital s1))
           (\<lambda>weekly_loss_pct.
              if weekly_loss_pct \<le> - weekly_loss_limit_pct cfg \<and> size_multiplier s1 = 1
              then Inr (s1\<lparr>size_multiplier := 1 / 2\<rparr>)
              else Inr s1))"

section \<open>backtest/backtester.py: opening and closing\<close>

definition open_position :: "params \<Rightarrow> symbol \<Rightarrow> datetime \<Rightarrow> real \<Rightarrow> frame \<Rightarrow> backtester \<Rightarrow> fault + backtester" where
  "open_position cfg sy date price df s =
     (let entry_price_with_slippage = price * (1 + slippage_pct cfg)
      in ebind (calculate_position_size (sizer s) entry_price_with_slippage (int (length (positions s))))
           (\<lambda>sizing.
              if \<not> can_open sizing then Inr s
              else
                let size_usd = sz_position_size_usd sizing * size_multiplier s;
                    contracts = sz_num_contracts sizing * size_multiplier s;
                    commission = size_usd * commission_pct cfg;
                    net_position_size = size_usd - commission
                in case index_of date df of
                     None \<Rightarrow> Inl IndexError
                   | Some entry_idx \<Rightarrow>
                       Inr (s\<lparr>positions :=
                                AList.update sy
                                  \<lparr>symbol = sy, entry_date = date, entry_index = entry_idx,
                                   entry_price = entry_price_with_slippage,
                                   position_size_usd = net_position_size,
                                   num_contracts = contracts,
                                   peak_price = entry_price_with_slippage,
                                   peak_date = date\<rparr> (positions s),
                              capital := capital s - size_usd\<rparr>)))"

definition close_position :: "params \<Rightarrow> symbol \<Rightarrow> nat \<Rightarrow> exit_details \<Rightarrow> frame \<Rightarrow> backtester \<Rightarrow> fault + backtester" where
  "close_position cfg sy exit_idx details df s =
     (case map_of (positions s) sy of
        None \<Rightarrow> Inl KeyError
      | Some position \<Rightarrow>
          let exit_price' = ed_close details * (1 - slippage_pct cfg)
          in ebind (fdiv (exit_price' - entry_price position) (entry_price position))
               (\<lambda>price_return.
                  let gross_pnl = num_contracts position * (exit_price' - entry_price position);
                      exit_commission = (num_contracts position * exit_price') * commission_pct cfg;
                      net_pnl = gross_pnl - exit_commission;
                      position_value = num_contracts position * exit_price';
                      capital' = capital s + (position_value - exit_commission);
                      trade =
                        \<lparr>t_symbol = sy, t_entry_date = entry_date position,
                         t_entry_price = entry_price position,
                         exit_date = ed_timestamp details, exit_price = exit_price',
                         t_position_size_usd = position_size_usd position,
                         t_num_contracts = num_contracts position,
                         return_pct = price_return, return_usd = net_pnl,
                         holding_days = ed_holding_days details,
                         exit_reason = ed_exit_reason details,
                         t_peak_price = peak_price position,
                         max_adverse_excursion =
                           map_option (\<lambda>m. (m - entry_price position) / entry_price position)
                             (list_min (map low (iloc_slice (entry_index position) exit_idx df)))\<rparr>
                  in Inr (s\<lparr>capital := capital',
                           trades := trades s @ [trade],
                           positions := AList.delete sy (positions s),
                           sizer := update_account_size (sizer s) capital'\<rparr>)))"

section \<open>backtest/backtester.py: exits\<close>

text \<open>
  The first loop of \<^verbatim>\<open>_check_exits\<close>: every position with a row at the step's
  timestamp has its peak raised to that row's high and is asked for an exit; the result
  is the positions with their new peaks and the list \<^verbatim>\<open>positions_to_close\<close>.
\<close>

fun scan_exits ::
  "params \<Rightarrow> datetime \<Rightarrow> (symbol \<times> frame) list \<Rightarrow> nat \<Rightarrow> bool \<Rightarrow> (symbol \<times> Position) list
     \<Rightarrow> fault + ((symbol \<times> Position) list \<times> (symbol \<times> nat \<times> exit_details) list)" where
  "scan_exits cfg d data ma_period use_ma_exit [] = Inr ([], [])"
| "scan_exits cfg d data ma_period use_ma_exit ((sy, p) # ps) =
     (case map_of data sy of
        None \<Rightarrow> ebind (scan_exits cfg d data ma_period use_ma_exit ps)
                 (\<lambda>(ps', cl). Inr ((sy, p) # ps', cl))
      | Some df \<Rightarrow>
          (case index_of d df of
             None \<Rightarrow> ebind (scan_exits cfg d data ma_period use_ma_exit ps)
                      (\<lambda>(ps', cl). Inr ((sy, p) # ps', cl))
           | Some current_idx \<Rightarrow>
               let p' = update_peak p (high (df ! current_idx)) d
               in ebind (check_exit_signal df (entry_index p') current_idx (entry_price p')
                          (bt_stop_loss_pct cfg) ma_period use_ma_exit)
                    (\<lambda>(exit_triggered, details).
                       ebind (scan_exits cfg d data ma_period use_ma_exit ps)
                         (\<lambda>(ps', cl).
                            Inr ((sy, p') # ps',
                                 if exit_triggered
                                 then (sy, current_idx, exit_details.truncate details) # cl
                                 else cl)))))"

text \<open>The closing loop over \<^verbatim>\<open>positions_to_close\<close>.\<close>

fun close_each ::
  "params \<Rightarrow> (symbol \<times> frame) list \<Rightarrow> (symbol \<times> nat \<times> exit_details) list \<Rightarrow> backtester
     \<Rightarrow> fault + backtester" where
  "close_each cfg data [] s = Inr s"
| "close_each cfg data ((sy, exit_idx, details) # cl) s =
     (case map_of data sy of
        None \<Rightarrow> Inl KeyError
      | Some df \<Rightarrow> ebind (close_position cfg sy exit_idx details df s) (close_each cfg data cl))"

definition check_exits ::
  "params \<Rightarrow> datetime \<Rightarrow> (symbol \<times> frame) list \<Rightarrow> nat \<Rightarrow> bool \<Rightarrow> backtester \<Rightarrow> fault + backtester" where
  "check_exits cfg d data ma_period use_ma_exit s =
     ebind (scan_exits cfg d data ma_period use_ma_exit (positions s))
       (\<lambda>(ps', cl). close_each cfg data cl (s\<lparr>positions := ps'\<rparr>))"

section \<open>backtest/backtester.py: entries\<close>

record opportunity =
  opp_symbol :: symbol
  opp_date :: datetime
  opp_price :: real
  opp_strength :: real

text \<open>The loop of \<^verbatim>\<open>_check_entries\<close> that fills \<^verbatim>\<open>entry_opportunities\<close>.\<close>

fun entry_opportunities ::
  "datetime \<Rightarrow> (symbol \<times> Position) list \<Rightarrow> (symbol \<times> frame) list \<Rightarrow> opportunity list" where
  "entry_opportunities d ps [] = []"
| "entry_opportunities d ps ((sy, signal_df) # rest) =
     (if map_of ps sy \<noteq> None then entry_opportunities d ps rest
      else case filter (\<lambda>r. timestamp r = d \<and> entry_signal r) signal_df of
             [] \<Rightarrow> entry_opportunities d ps rest
           | signal_row # _ \<Rightarrow>
               \<lparr>opp_symbol = sy, opp_date = d, opp_price = close signal_row,
                opp_strength = signal_strength signal_row\<rparr> # entry_opportunities d ps rest)"

text \<open>
  \<^verbatim>\<open>list.sort(key=strength, reverse=True)\<close>: descending, and stable (equal strengths
  keep their order).
\<close>

definition sort_by_strength :: "opportunity list \<Rightarrow> opportunity list" where
  "sort_by_strength opps = sort_key (\<lambda>x. - opp_strength x) opps"

fun open_each ::
  "params \<Rightarrow> (symbol \<times> frame) list \<Rightarrow> opportunity list \<Rightarrow> backtester \<Rightarrow> fault + backtester" where
  "open_each cfg data [] s = Inr s"
| "open_each cfg data (opp # opps) s =
     (case map_of data (opp_symbol opp) of
        None \<Rightarrow> Inl KeyError
      | Some df \<Rightarrow>
          ebind (open_position cfg (opp_symbol opp) (opp_date opp) (opp_price opp) df s)
            (open_each cfg data opps))"

definition check_entries ::
  "params \<Rightarrow> datetime \<Rightarrow> (symbol \<times> frame) list \<Rightarrow> (symbol \<times> frame) list \<Rightarrow> backtester
     \<Rightarrow> fault + backtester" where
  "check_entries cfg d signals data s =
     ebind (check_daily_loss_limit cfg d s) (\<lambda>(stop, s1).
       if stop then Inr s1
       else ebind (check_weekly_loss_limit cfg d s1) (\<lambda>s2.
         if int (length (positions s2)) \<ge> bt_max_positions cfg then Inr s2
         else
           let opps = sort_by_strength (entry_opportunities d (positions s2) signals);
               slots_available = bt_max_positions cfg - int (length (positions s2))
           in open_each cfg data (take (nat slots_available) opps) s2))"

section \<open>backtest/backtester.py: equity and the run\<close>

fun positions_value :: "datetime \<Rightarrow> (symbol \<times> frame) list \<Rightarrow> (symbol \<times> Position) list \<Rightarrow> real" where
  "positions_value d data [] = 0"
| "positions_value d data ((sy, p) # ps) =
     (case map_of data sy of
        None \<Rightarrow> positions_value d data ps
      | Some df \<Rightarrow>
          (case filter (\<lambda>r. timestamp r = d) df of
             [] \<Rightarrow> positions_value d data ps
           | current_row # _ \<Rightarrow> num_contracts p * close current_row + positions_value d data ps))"

definition update_equity :: "datetime \<Rightarrow> (symbol \<times> frame) list \<Rightarrow> backtester \<Rightarrow> backtester" where
  "update_equity d data s =
     (let pv = positions_value d data (positions s)
      in s\<lparr>equity_history := equity_history s @
              [\<lparr>eq_date = d, eq_equity = capital s + pv, eq_cash = capital s,
                eq_positions_value = pv, eq_num_positions = length (positions s)\<rparr>]\<rparr>)"

text \<open>\<^verbatim>\<open>_close_all_positions\<close>, over \<^verbatim>\<open>list(self.positions.keys())\<close>.\<close>

fun close_all_loop :: "params \<Rightarrow> (symbol \<times> frame) list \<Rightarrow> symbol list \<Rightarrow> backtester \<Rightarrow> fault + backtester" where
  "close_all_loop cfg data [] s = Inr s"
| "close_all_loop cfg data (sy # sys) s =
     (case map_of (positions s) sy of
        None \<Rightarrow> Inl KeyError
      | Some position \<Rightarrow>
          (case map_of data sy of
             None \<Rightarrow> Inl KeyError
           | Some df \<Rightarrow>
               if df = [] then Inl IndexError
               else
                 let last_idx = length df - 1;
                     last_row = df ! last_idx;
                     details = \<lparr>ed_close = close last_row, ed_timestamp = timestamp last_row,
                                ed_holding_days = int last_idx - int (entry_index position),
                                ed_exit_reason = ''end_of_backtest''\<rparr>
                 in ebind (close_position cfg sy last_idx details df s)
                      (close_all_loop cfg data sys)))"

definition close_all_positions :: "params \<Rightarrow> (symbol \<times> frame) list \<Rightarrow> backtester \<Rightarrow> fault + backtester" where
  "close_all_positions cfg data s = close_all_loop cfg data (map fst (positions s)) s"

text \<open>
  \<^verbatim>\<open>run\<close>: the signal frames are the data frames of the requested symbols (with the
  signal columns), the trading days are the sorted set of their timestamps, and each day
  runs exits, entries and the equity mark; what is still open at the end is closed.
\<close>

definition build_signals :: "symbol list \<Rightarrow> (symbol \<times> frame) list \<Rightarrow> (symbol \<times> frame) list" where
  "build_signals symbols data =
     fold (\<lambda>sy signals. case map_of data sy of
                             None \<Rightarrow> signals
                           | Some df \<Rightarrow> AList.update sy df signals) symbols []"

definition trading_days :: "(symbol \<times> frame) list \<Rightarrow> datetime list" where
  "trading_days signals = sort (remdups (concat (map (\<lambda>(sy, df). map timestamp df) signals)))"

text \<open>The body of the day loop: exits, entries, equity mark.\<close>

definition day_step ::
  "params \<Rightarrow> (symbol \<times> frame) list \<Rightarrow> (symbol \<times> frame) list \<Rightarrow> nat \<Rightarrow> bool \<Rightarrow> datetime
     \<Rightarrow> backtester \<Rightarrow> fault + backtester" where
  "day_step cfg signals data ma_period use_ma_exit d s =
     ebind (check_exits cfg d data ma_period use_ma_exit s) (\<lambda>s1.
     ebind (check_entries cfg d signals data s1) (\<lambda>s2.
       Inr (update_equity d data s2)))"

fun run_loop ::
  "params \<Rightarrow> (symbol \<times> frame) list \<Rightarrow> (symbol \<times> frame) list \<Rightarrow> nat \<Rightarrow> bool \<Rightarrow> datetime list
     \<Rightarrow> backtester \<Rightarrow> fault + backtester" where
  "run_loop cfg signals data ma_period use_ma_exit [] s = Inr s"
| "run_loop cfg signals data ma_period use_ma_exit (d # ds) s =
     ebind (day_step cfg signals data ma_period use_ma_exit d s)
       (run_loop cfg signals data ma_period use_ma_exit ds)"

definition run ::
  "params \<Rightarrow> symbol list \<Rightarrow> (symbol \<times> frame) list \<Rightarrow> nat \<Rightarrow> bool \<Rightarrow> fault + backtester" where
  "run cfg symbols data ma_period use_ma_exit =
     (let signals = build_signals symbols data
      in ebind (run_loop cfg signals data ma_period use_ma_exit (trading_days signals) (init cfg))
           (close_all_positions cfg data))"

section \<open>backtest/realistic\_backtester.py\<close>

text \<open>The first loop of \<^verbatim>\<open>_check_universe_exits\<close>, over \<^verbatim>\<open>list(self.positions.keys())\<close>.\<close>

fun universe_exits ::
  "datetime \<Rightarrow> symbol list \<Rightarrow> (symbol \<times> frame) list \<Rightarrow> (symbol \<times> Position) list
     \<Rightarrow> (symbol \<times> nat \<times> exit_details) list" where
  "universe_exits d universe data [] = []"
| "universe_exits d universe data ((sy, p) # ps) =
     (if sy \<notin> set universe then
        (case map_of data sy of
           None \<Rightarrow> universe_exits d universe data ps
         | Some df \<Rightarrow>
             (case index_of d df of
                None \<Rightarrow> universe_exits d universe data ps
              | Some current_idx \<Rightarrow>
                  (sy, current_idx,
                   \<lparr>ed_close = close (df ! current_idx), ed_timestamp = d,
                    ed_holding_days = int current_idx - int (entry_index p),
                    ed_exit_reason = ''removed_from_universe''\<rparr>)
                  # universe_exits d universe data ps))
      else universe_exits d universe data ps)"

definition check_universe_exits ::
  "params \<Rightarrow> datetime \<Rightarrow> symbol list \<Rightarrow> (symbol \<times> frame) list \<Rightarrow> backtester \<Rightarrow> fault + backtester" where
  "check_universe_exits cfg d universe data s =
     close_each cfg data (universe_exits d universe data (positions s)) s"

fun entry_opportunities_filtered ::
  "datetime \<Rightarrow> symbol list \<Rightarrow> (symbol \<times> Position) list \<Rightarrow> (symbol \<times> frame) list \<Rightarrow> opportunity list" where
  "entry_opportunities_filtered d universe ps [] = []"
| "entry_opportunities_filtered d universe ps ((sy, signal_df) # rest) =
     (if sy \<notin> set universe then entry_opportunities_filtered d universe ps rest
      else if map_of ps sy \<noteq> None then entry_opportunities_filtered d universe ps rest
      else case filter (\<lambda>r. timestamp r = d \<and> entry_signal r) signal_df of
             [] \<Rightarrow> entry_opportunities_filtered d universe ps rest
           | signal_row # _ \<Rightarrow>
               \<lparr>opp_symbol = sy, opp_date = d, opp_price = close signal_row,
                opp_strength = signal_strength signal_row\<rparr>
               # entry_opportunities_filtered d universe ps rest)"

definition check_entries_filtered ::
  "params \<Rightarrow> datetime \<Rightarrow> (symbol \<times> frame) list \<Rightarrow> (symbol \<times> frame) list \<Rightarrow> symbol list
     \<Rightarrow> backtester \<Rightarrow> fault + backtester" where
  "check_entries_filtered cfg d signals data universe s =
     (if int (length (positions s)) \<ge> bt_max_positions cfg then Inr s
      else
        let opps = sort_by_strength (entry_opportunities_filtered d universe (positions s) signals);
            slots_available = bt_max_positions cfg - int (length (positions s))
        in open_each cfg data (take (nat slots_available) opps) s)"

text \<open>
  One pass of the loop of \<^verbatim>\<open>run_realistic\<close> once the universe of the step is known:
  universe exits, signal exits, filtered entries, equity mark.
\<close>

definition realistic_step ::
  "params \<Rightarrow> (symbol \<times> frame) list \<Rightarrow> (symbol \<times> frame) list \<Rightarrow> nat \<Rightarrow> bool \<Rightarrow> symbol list
     \<Rightarrow> datetime \<Rightarrow> backtester \<Rightarrow> fault + backtester" where
  "realistic_step cfg signals data ma_period use_ma_exit universe d s =
     ebind (check_universe_exits cfg d universe data s) (\<lambda>s1.
     ebind (check_exits cfg d data ma_period use_ma_exit s1) (\<lambda>s2.
     ebind (check_entries_filtered cfg d signals data universe s2) (\<lambda>s3.
       Inr (update_equity d data s3))))"

text \<open>
  The loop itself. \<open>updates\<close> is \<^verbatim>\<open>universe_updates\<close> in the order of its sorted
  keys, from \<^verbatim>\<open>next_update_idx\<close> on; at most one update is taken per step.
\<close>

fun realistic_loop ::
  "params \<Rightarrow> (symbol \<times> frame) list \<Rightarrow> (symbol \<times> frame) list \<Rightarrow> nat \<Rightarrow> bool
     \<Rightarrow> (datetime \<times> symbol list) list \<Rightarrow> symbol list \<Rightarrow> datetime list \<Rightarrow> backtester
     \<Rightarrow> fault + backtester" where
  "realistic_loop cfg signals data ma_period use_ma_exit updates universe [] s = Inr s"
| "realistic_loop cfg signals data ma_period use_ma_exit updates universe (d # ds) s =
     (let (updates', universe') =
            (case updates of
               (u, new_universe) # rest \<Rightarrow>
                 if d \<ge> u then (rest, new_universe) else (updates, universe)
             | [] \<Rightarrow> (updates, universe))
      in ebind (realistic_step cfg signals data ma_period use_ma_exit universe' d s)
           (realistic_loop cfg signals data ma_period use_ma_exit updates' universe' ds))"

section \<open>backtest/performance.py\<close>

text \<open>
  The metrics dictionary, in insertion order. A value is a Python integer, a float,
  \<^verbatim>\<open>inf\<close>, \<^verbatim>\<open>-inf\<close>, \<^verbatim>\<open>nan\<close>, or one of the two breakdown dictionaries (exit reason
  to count; symbol to trades, wins and total return).
\<close>

datatype metric =
  MInt int | MReal real | MInf | MNegInf | MNaN
| MReasons "(string \<times> nat) list"
| MSymbols "(symbol \<times> nat \<times> nat \<times> real) list"

type_synonym metrics = "(string \<times> metric) list"

definition empty_metrics :: metrics where
  "empty_metrics =
     [(''total_trades'', MInt 0), (''winning_trades'', MInt 0), (''losing_trades'', MInt 0),
      (''win_rate'', MInt 0), (''avg_return_pct'', MInt 0), (''avg_win_pct'', MInt 0),
      (''avg_loss_pct'', MInt 0), (''profit_factor'', MInt 0), (''total_return'', MInt 0),
      (''max_drawdown'', MInt 0), (''sharpe_ratio'', MInt 0)]"

definition mean :: "real list \<Rightarrow> real" where
  "mean xs = sum_list xs / real (length xs)"

definition median :: "real list \<Rightarrow> real" where
  "median xs =
     (let ys = sort xs; n = length ys
      in if odd n then ys ! (n div 2) else (ys ! (n div 2 - 1) + ys ! (n div 2)) / 2)"

text \<open>\<^verbatim>\<open>np.std\<close> divides by \<open>n\<close>; the \<^verbatim>\<open>std\<close> of a pandas Series by \<open>n - 1\<close>, \<^verbatim>\<open>nan\<close> below two values.\<close>

definition np_std :: "real list \<Rightarrow> real" where
  "np_std xs = sqrt (mean (map (\<lambda>x. (x - mean xs)\<^sup>2) xs))"

definition series_std :: "real list \<Rightarrow> real option" where
  "series_std xs =
     (if length xs < 2 then None
      else Some (sqrt (sum_list (map (\<lambda>x. (x - mean xs)\<^sup>2) xs) / real (length xs - 1))))"

fun cummax :: "real \<Rightarrow> real list \<Rightarrow> real list" where
  "cummax m [] = []"
| "cummax m (x # xs) = max m x # cummax (max m x) xs"

fun count_reasons :: "Trade list \<Rightarrow> (string \<times> nat) list \<Rightarrow> (string \<times> nat) list" where
  "count_reasons [] acc = acc"
| "count_reasons (t # ts) acc =
     count_reasons ts
       (AList.update (exit_reason t)
          (case map_of acc (exit_reason t) of None \<Rightarrow> 1 | Some c \<Rightarrow> c + 1) acc)"

fun symbol_stats ::
  "Trade list \<Rightarrow> (symbol \<times> nat \<times> nat \<times> real) list \<Rightarrow> (symbol \<times> nat \<times> nat \<times> real) list" where
  "symbol_stats [] acc = acc"
| "symbol_stats (t # ts) acc =
     symbol_stats ts
       (AList.update (t_symbol t)
          (case (case map_of acc (t_symbol t) of None \<Rightarrow> (0, 0, 0) | Some st \<Rightarrow> st) of
             (n, wins, tot) \<Rightarrow>
               (n + 1, if return_pct t > 0 then wins + 1 else wins, tot + return_pct t)) acc)"

text \<open>
  The equity-curve keys are computed on numpy floats, where a division by zero raises
  nothing: it gives \<^verbatim>\<open>inf\<close>, \<^verbatim>\<open>-inf\<close> or, for zero over zero, \<^verbatim>\<open>nan\<close>. Subtracting 1 and
  multiplying by 100 keep these values, and \<^verbatim>\<open>min()\<close> of a Series skips \<^verbatim>\<open>nan\<close> (it is
  \<^verbatim>\<open>nan\<close> when nothing is left).
\<close>

definition np_div :: "real \<Rightarrow> real \<Rightarrow> metric" where
  "np_div a b =
     (if b \<noteq> 0 then MReal (a / b)
      else if a > 0 then MInf
      else if a < 0 then MNegInf
      else MNaN)"

definition np_map :: "(real \<Rightarrow> real) \<Rightarrow> metric \<Rightarrow> metric" where
  "np_map f v = (case v of MReal x \<Rightarrow> MReal (f x) | _ \<Rightarrow> v)"

definition series_min :: "metric list \<Rightarrow> metric" where
  "series_min vs =
     (let present = filter (\<lambda>v. v \<noteq> MNaN) vs
      in if present = [] then MNaN
         else if MNegInf \<in> set present then MNegInf
         else (case List.map_filter (\<lambda>v. case v of MReal x \<Rightarrow> Some x | _ \<Rightarrow> None) present of
                 [] \<Rightarrow> MInf
               | x # xs \<Rightarrow> MReal (fold min xs x)))"

definition equity_metrics :: "real list \<Rightarrow> real \<Rightarrow> metrics" where
  "equity_metrics equity initial =
     (if equity = [] then []
      else
        let final_equity = last equity;
            total_return = np_map (\<lambda>r. r - 1) (np_div final_equity initial);
            drawdown = map (\<lambda>(e, m). np_div (e - m) m) (zip equity (cummax (hd equity) equity));
            max_drawdown = series_min drawdown
        in [(''final_equity'', MReal final_equity),
            (''total_return'', total_return),
            (''total_return_pct'', np_map (\<lambda>r. r * 100) total_return),
            (''max_drawdown'', max_drawdown),
            (''max_drawdown_pct'', np_map (\<lambda>r. r * 100) max_drawdown)])"

definition returns_metrics :: "real list \<Rightarrow> metrics" where
  "returns_metrics daily_returns =
     (if daily_returns = [] then []
      else
        let downside_returns = filter (\<lambda>x. x < 0) daily_returns
        in [(''sharpe_ratio'',
               (case series_std daily_returns of
                  None \<Rightarrow> MInt 0
                | Some sd \<Rightarrow> if sd > 0 then MReal (mean daily_returns / sd * sqrt 365) else MInt 0)),
            (''sortino_ratio'',
               (case series_std downside_returns of
                  None \<Rightarrow> MInt 0
                | Some sd \<Rightarrow> if sd > 0 then MReal (mean daily_returns / sd * sqrt 365) else MInt 0))])"

definition calculate_performance_metrics ::
  "Trade list \<Rightarrow> real list \<Rightarrow> real list \<Rightarrow> real \<Rightarrow> fault + metrics" where
  "calculate_performance_metrics ts equity daily_returns initial =
     (if length ts = 0 then Inr empty_metrics
      else
        let winning_trades = filter (\<lambda>t. return_pct t > 0) ts;
            losing_trades = filter (\<lambda>t. return_pct t \<le> 0) ts;
            returns = map return_pct ts;
            total_wins = sum_list (map return_usd winning_trades);
            total_losses = \<bar>sum_list (map return_usd losing_trades)\<bar>;
            holding = map (\<lambda>t. real_of_int (holding_days t)) ts;
            em = equity_metrics equity initial
        in Inr ([(''total_trades'', MInt (int (length ts))),
                   (''winning_trades'', MInt (int (length winning_trades))),
                   (''losing_trades'', MInt (int (length losing_trades))),
                   (''win_rate'', MReal (real (length winning_trades) / real (length ts))),
                   (''avg_return_pct'', MReal (mean returns)),
                   (''median_return_pct'', MReal (median returns)),
                   (''std_return_pct'', MReal (np_std returns)),
                   (''avg_win_pct'',
                      if winning_trades = [] then MInt 0
                      else MReal (mean (map return_pct winning_trades))),
                   (''max_win_pct'',
                      if winning_trades = [] then MInt 0
                      else MReal (fold max (map return_pct winning_trades)
                                    (return_pct (hd winning_trades)))),
                   (''avg_loss_pct'',
                      if losing_trades = [] then MInt 0
                      else MReal (mean (map return_pct losing_trades))),
                   (''max_loss_pct'',
                      if losing_trades = [] then MInt 0
                      else MReal (fold min (map return_pct losing_trades)
                                    (return_pct (hd losing_trades)))),
                   (''total_profit_usd'', MReal total_wins),
                   (''total_loss_usd'', MReal total_losses),
                   (''profit_factor'',
                      if total_losses > 0 then MReal (total_wins / total_losses) else MInf),
                   (''avg_holding_days'', MReal (mean holding)),
                   (''median_holding_days'', MReal (median holding))]
                  @ em @ returns_metrics daily_returns
                  @ [(''exit_reasons'', MReasons (count_reasons ts [])),
                     (''symbol_stats'', MSymbols (symbol_stats ts []))]))"

section \<open>Frame of the risk limits\<close>

text \<open>The risk-limit attributes of two states agree.\<close>

definition risk_frame :: "backtester \<Rightarrow> backtester \<Rightarrow> bool" where
  "risk_frame s s' \<longleftrightarrow>
     current_date s' = current_date s \<and> daily_trading_stopped s' = daily_trading_stopped s
   \<and> daily_start_capital s' = daily_start_capital s
   \<and> current_week s' = current_week s \<and> size_multiplier s' = size_multiplier s
   \<and> weekly_start_capital s' = weekly_start_capital s"

section \<open>The conserved quantity\<close>

text \<open>
  The notional of the open positions, each taken as quantity times entry price, and the
  quantity that capital conservation is about: cash plus open notional minus the
  \<open>return_usd\<close> of the recorded trades.
\<close>

definition open_notional :: "(symbol \<times> Position) list \<Rightarrow> real" where
  "open_notional ps = sum_list (map (\<lambda>(sy, p). num_contracts p * entry_price p) ps)"

definition conserved :: "backtester \<Rightarrow> real" where
  "conserved s = capital s + open_notional (positions s) - sum_list (map return_usd (trades s))"

text \<open>The ledger invariant of a run: distinct position keys and the conserved quantity at \<open>K\<close>.\<close>

definition ledger_inv :: "real \<Rightarrow> backtester \<Rightarrow> bool" where
  "ledger_inv K s \<longleftrightarrow> distinct (map fst (positions s)) \<and> conserved s = K"

section \<open>Well-formed price data and trades\<close>

text \<open>
  What the price provider and the data validator guarantee of a frame: timestamps
  strictly increasing, prices positive, and each low at most its close.
\<close>

definition good_frame :: "frame \<Rightarrow> bool" where
  "good_frame df \<longleftrightarrow>
     sorted_wrt (<) (map timestamp df) \<and> (\<forall>r \<in> set df. 0 < close r \<and> low r \<le> close r)"

definition good_data :: "(symbol \<times> frame) list \<Rightarrow> bool" where
  "good_data data \<longleftrightarrow> (\<forall>sy df. map_of data sy = Some df \<longrightarrow> good_frame df)"

text \<open>The two properties of a recorded trade.\<close>

definition trade_ok :: "Trade \<Rightarrow> bool" where
  "trade_ok t \<longleftrightarrow>
     (\<exists>m. max_adverse_excursion t = Some m \<and> m \<le> 0) \<and> t_entry_price t \<le> t_peak_price t"

text \<open>
  An open position as the engine makes it: entered on a bar of its symbol's frame, at
  that bar's close plus slippage, not after day \<open>d\<close>, with a peak not below the entry.
\<close>

definition position_ok :: "params \<Rightarrow> (symbol \<times> frame) list \<Rightarrow> datetime \<Rightarrow> symbol \<Rightarrow> Position \<Rightarrow> bool" where
  "position_ok cfg data d sy p \<longleftrightarrow>
     (\<exists>df. map_of data sy = Some df \<and> entry_index p < length df
         \<and> timestamp (df ! entry_index p) = entry_date p
         \<and> entry_price p = close (df ! entry_index p) * (1 + slippage_pct cfg))
   \<and> entry_price p \<le> peak_price p \<and> entry_date p \<le> d"

definition book_ok :: "params \<Rightarrow> (symbol \<times> frame) list \<Rightarrow> datetime \<Rightarrow> backtester \<Rightarrow> bool" where
  "book_ok cfg data d s \<longleftrightarrow>
     (\<forall>(sy, p) \<in> set (positions s). position_ok cfg data d sy p)
   \<and> (\<forall>t \<in> set (trades s). trade_ok t)"

section \<open>Concrete inputs\<close>

text \<open>
  The defaults of the constructor, and two daily bars of which the second closes below
  both the trailing stop and the 2-bar average.
\<close>

definition ex_cfg :: params where
  "ex_cfg =
     \<lparr>initial_capital = 10000, bt_risk_per_trade_pct = 2 / 100, bt_stop_loss_pct = 20 / 100,
      bt_max_positions = 5, commission_pct = 1 / 1000, slippage_pct = 1 / 1000,
      daily_loss_limit_pct = 3 / 100, weekly_loss_limit_pct = 8 / 100\<rparr>"

definition ex_df :: frame where
  "ex_df =
     [\<lparr>timestamp = 0, high = 100, low = 90, close = 100,
       entry_signal = False, signal_strength = 0\<rparr>,
      \<lparr>timestamp = 86400, high = 75, low = 65, close = 70,
       entry_signal = False, signal_strength = 0\<rparr>]"

text \<open>
  Three daily bars from Monday 2024-01-01 on: an entry signal on the first, and on the
  third a close more than 20 percent below the high of the second.
\<close>

definition ex_bars :: frame where
  "ex_bars =
     [\<lparr>timestamp = 63839664000, high = 101, low = 99, close = 100,
       entry_signal = True, signal_strength = 9 / 10\<rparr>,
      \<lparr>timestamp = 63839750400, high = 110, low = 100, close = 105,
       entry_signal = False, signal_strength = 0\<rparr>,
      \<lparr>timestamp = 63839836800, high = 106, low = 80, close = 82,
       entry_signal = False, signal_strength = 0\<rparr>]"

definition ex_data :: "(symbol \<times> frame) list" where
  "ex_data = [(''AAA'', ex_bars)]"

text \<open>A state on that Monday, in ISO week 1, whose capital has fallen from 10000 to 9000.\<close>

definition ex_fallen :: backtester where
  "ex_fallen = (init ex_cfg)\<lparr>capital := 9000, current_date := Some 63839664000,
                               current_week := Some 1\<rparr>"

text \<open>
  Three symbols with an entry signal on the same bar, of strengths 0.9, 0.95 and 0.4,
  and an engine with a single slot.
\<close>

definition ex_signals3 :: "(symbol \<times> frame) list" where
  "ex_signals3 =
     [(''AAA'', [\<lparr>timestamp = 63839664000, high = 101, low = 99, close = 100,
                  entry_signal = True, signal_strength = 9 / 10\<rparr>]),
      (''BBB'', [\<lparr>timestamp = 63839664000, high = 51, low = 49, close = 50,
                  entry_signal = True, signal_strength = 95 / 100\<rparr>]),
      (''CCC'', [\<lparr>timestamp = 63839664000, high = 11, low = 9, close = 10,
                  entry_signal = True, signal_strength = 4 / 10\<rparr>])]"

definition ex_cfg1 :: params where
  "ex_cfg1 = ex_cfg\<lparr>bt_max_positions := 1\<rparr>"

text \<open>The state of the engine after it has opened \<open>AAA\<close> on the first bar of \<open>ex_bars\<close>.\<close>

definition ex_held :: backtester where
  "ex_held = (init ex_cfg)
     \<lparr>capital := 9000,
      positions := [(''AAA'', \<lparr>symbol = ''AAA'', entry_date = 63839664000, entry_index = 0,
                              entry_price = 1001 / 10, position_size_usd = 999,
                              num_contracts = 10000 / 1001, peak_price = 1001 / 10,
                              peak_date = 63839664000\<rparr>)]\<rparr>"

text \<open>The defaults of the constructor with the slippage set to zero.\<close>

definition ex_cfg0 :: params where
  "ex_cfg0 = ex_cfg\<lparr>slippage_pct := 0\<rparr>"

text \<open>One symbol with a single bar, closing at 100 and carrying an entry signal.\<close>

definition ex_one_bar :: "(symbol \<times> frame) list" where
  "ex_one_bar =
     [(''AAA'', [\<lparr>timestamp = 63839664000, high = 101, low = 99, close = 100,
                  entry_signal = True, signal_strength = 9 / 10\<rparr>])]"

text \<open>
  Two symbols on two bars of Monday 2024-01-01, at 00:00 and at 04:00: \<open>AAA\<close> has its
  entry signal on the first bar, \<open>BBB\<close> on the second.
\<close>

definition ex_intraday :: "(symbol \<times> frame) list" where
  "ex_intraday =
     [(''AAA'', [\<lparr>timestamp = 63839664000, high = 101, low = 99, close = 100,
                  entry_signal = True, signal_strength = 9 / 10\<rparr>,
                 \<lparr>timestamp = 63839678400, high = 102, low = 99, close = 101,
                  entry_signal = False, signal_strength = 0\<rparr>]),
      (''BBB'', [\<lparr>timestamp = 63839664000, high = 51, low = 49, close = 50,
                  entry_signal = False, signal_strength = 0\<rparr>,
                 \<lparr>timestamp = 63839678400, high = 51, low = 49, close = 50,
                  entry_signal = True, signal_strength = 9 / 10\<rparr>])]"

section \<open>Position sizing\<close>

text \<open>
  C3. With fewer open positions than \<open>max_positions\<close> (and non-zero divisors, as the
  caller must pass), the sizer returns \<open>risk_usd = account_size * risk_per_trade_pct\<close>
  and \<open>size_usd = risk_usd / stop_loss_pct\<close>; when \<open>size_usd / account_size\<close> exceeds
  \<open>max_position_size_pct\<close> the size is clamped to \<open>account_size * max_position_size_pct\<close>
  and the risk recomputed as \<open>size_usd * stop_loss_pct\<close>; the quantity is
  \<open>size_usd / entry_price\<close>. For an account of 10000 at 2 percent risk and a 20 percent
  stop the size is 1000, and at an entry price of 0.25 the quantity is 4000.
\<close>

theorem calculate_position_size_formula:
  assumes "current_positions < max_positions sz"
    and "stop_loss_pct sz \<noteq> 0" and "account_size sz \<noteq> 0" and "price \<noteq> 0"
  shows "(\<exists>r. calculate_position_size sz price current_positions = Inr r
      \<and> can_open r
      \<and> (let risk = account_size sz * risk_per_trade_pct sz;
              size = risk / stop_loss_pct sz
          in if size / account_size sz > max_position_size_pct sz
             then sz_position_size_usd r = account_size sz * max_position_size_pct sz
                \<and> sz_risk_usd r = sz_position_size_usd r * stop_loss_pct sz
                \<and> sz_position_size_pct r = max_position_size_pct sz
             else sz_position_size_usd r = size \<and> sz_risk_usd r = risk
                \<and> sz_position_size_pct r = size / account_size sz)
      \<and> sz_num_contracts r = sz_position_size_usd r / price)
    \<and> calculate_position_size
           \<lparr>account_size = 10000, risk_per_trade_pct = 2 / 100, stop_loss_pct = 20 / 100,
            max_positions = 5, max_position_size_pct = 20 / 100\<rparr> (25 / 100) 0
         = Inr \<lparr>sz_position_size_usd = 1000, sz_position_size_pct = 10 / 100,
                sz_num_contracts = 4000, sz_risk_usd = 200, can_open = True\<rparr>"
  using assms by (simp add: calculate_position_size_def ebind_def fdiv_def Let_def)

theorem calculate_position_size_formula_witness:
  "\<exists>r. calculate_position_size
          \<lparr>account_size = 5000, risk_per_trade_pct = 5 / 100, stop_loss_pct = 10 / 100,
           max_positions = 3, max_position_size_pct = 20 / 100\<rparr> 2 1 = Inr r
      \<and> can_open r \<and> sz_position_size_usd r = 1000 \<and> sz_risk_usd r = 100
      \<and> sz_num_contracts r = 500"
  using calculate_position_size_formula
    [of 1 "\<lparr>account_size = 5000, risk_per_trade_pct = 5 / 100, stop_loss_pct = 10 / 100,
            max_positions = 3, max_position_size_pct = 20 / 100\<rparr>" 2]
  by (auto simp: Let_def)


section \<open>Performance metrics of an empty ledger\<close>

text \<open>
  C9. On an empty trade list \<^verbatim>\<open>calculate_performance_metrics\<close> does not raise: whatever
  the equity curve, the daily returns and the initial capital, it returns the neutral
  dictionary of \<^verbatim>\<open>_empty_metrics\<close>, in which \<open>total_trades\<close>, \<open>win_rate\<close>,
  \<open>profit_factor\<close>, \<open>max_drawdown\<close> and \<open>sharpe_ratio\<close> are all 0.
\<close>

theorem calculate_performance_metrics_empty:
  "\<exists>m. calculate_performance_metrics [] equity daily_returns initial = Inr m
     \<and> m = empty_metrics
     \<and> map_of m ''total_trades'' = Some (MInt 0)
     \<and> map_of m ''win_rate'' = Some (MInt 0)
     \<and> map_of m ''profit_factor'' = Some (MInt 0)
     \<and> map_of m ''max_drawdown'' = Some (MInt 0)
     \<and> map_of m ''sharpe_ratio'' = Some (MInt 0)"
  by (simp add: calculate_performance_metrics_def empty_metrics_def)

section \<open>Windows of a frame\<close>

lemma list_max_Max: "xs \<noteq> [] \<Longrightarrow> list_max xs = Some (Max (set xs))"
proof (cases xs)
  case (Cons y ys)
  then show ?thesis using Max.set_eq_fold[of y ys] by simp
qed simp

lemma list_min_Min: "xs \<noteq> [] \<Longrightarrow> list_min xs = Some (Min (set xs))"
proof (cases xs)
  case (Cons y ys)
  then show ?thesis using Min.set_eq_fold[of y ys] by simp
qed simp

lemma set_iloc_slice:
  assumes "a \<le> b" "b < length xs"
  shows "set (iloc_slice a b xs) = {xs ! i | i. a \<le> i \<and> i \<le> b}"
proof -
  have len: "length (iloc_slice a b xs) = Suc b - a"
    using assms by (simp add: iloc_slice_def)
  have nth: "iloc_slice a b xs ! j = xs ! (a + j)" if "j < Suc b - a" for j
    using that assms by (simp add: iloc_slice_def)
  show ?thesis
  proof (rule set_eqI, rule iffI)
    fix x assume "x \<in> set (iloc_slice a b xs)"
    then obtain j where "j < Suc b - a" "x = iloc_slice a b xs ! j"
      by (metis in_set_conv_nth len)
    then have "x = xs ! (a + j)" "a \<le> a + j" "a + j \<le> b" using nth by auto
    then show "x \<in> {xs ! i | i. a \<le> i \<and> i \<le> b}" by blast
  next
    fix x assume "x \<in> {xs ! i | i. a \<le> i \<and> i \<le> b}"
    then obtain i where i: "x = xs ! i" "a \<le> i" "i \<le> b" by blast
    then have "i - a < Suc b - a" "x = iloc_slice a b xs ! (i - a)"
      using nth[of "i - a"] by auto
    then show "x \<in> set (iloc_slice a b xs)"
      by (metis len nth_mem)
  qed
qed

lemma iloc_slice_nonempty: "a \<le> b \<Longrightarrow> b < length xs \<Longrightarrow> iloc_slice a b xs \<noteq> []"
  by (auto simp: iloc_slice_def)

lemma window_peak:
  assumes "a \<le> b" "b < length df"
  shows "list_max (map high (iloc_slice a b df))
           = Some (Max {high (df ! i) | i. a \<le> i \<and> i \<le> b})"
proof -
  have "set (map high (iloc_slice a b df)) = {high (df ! i) | i. a \<le> i \<and> i \<le> b}"
    using set_iloc_slice[OF assms] by auto
  then show ?thesis
    using list_max_Max[of "map high (iloc_slice a b df)"] iloc_slice_nonempty[OF assms] by simp
qed

section \<open>Exit-reason priority\<close>

text \<open>
  C10. In \<^verbatim>\<open>check_exit_signal\<close>, with \<open>peak\<close> the maximum high over the inclusive
  window from the entry index to the current index: when the trailing-stop condition
  \<open>close \<le> peak * (1 - trailing_stop_pct)\<close> and the MA-exit condition (MA exit enabled
  and the close below the period's simple moving average) hold together, the reported
  reason is \<open>trailing_stop\<close>; \<open>ma_exit\<close> is reported exactly when the MA condition holds
  and the stop condition does not.
\<close>

theorem check_exit_signal_priority:
  assumes "entry_idx \<le> current_idx" and "current_idx < length df" and "price \<noteq> 0"
  shows "\<exists>trig det. check_exit_signal df entry_idx current_idx price tsp ma use = Inr (trig, det)
     \<and> (let peak = Max {high (df ! i) | i. entry_idx \<le> i \<and> i \<le> current_idx};
             c = close (df ! current_idx);
             stop = (c \<le> peak * (1 - tsp));
             ma_cond = (use \<and> (\<exists>m. calculate_sma ma (map close df) current_idx = Some m \<and> c < m))
         in (stop \<and> ma_cond \<longrightarrow> ed_exit_reason det = ''trailing_stop'')
          \<and> (stop \<longrightarrow> ed_exit_reason det = ''trailing_stop'')
          \<and> (ed_exit_reason det = ''ma_exit'' \<longleftrightarrow> ma_cond \<and> \<not> stop)
          \<and> (trig \<longleftrightarrow> stop \<or> ma_cond))"
  using assms window_peak[OF assms(1,2)]
  by (auto simp: check_exit_signal_def calculate_trailing_stop_def ebind_def fdiv_def Let_def
           split: option.splits)

theorem check_exit_signal_priority_witness:
  "\<exists>trig det. check_exit_signal ex_df 0 1 100 (1 / 5) 2 True = Inr (trig, det)
      \<and> calculate_sma 2 (map close ex_df) 1 = Some 85
      \<and> close (ex_df ! 1) = 70
      \<and> Max {high (ex_df ! i) | i. (0::nat) \<le> i \<and> i \<le> 1} = 100
      \<and> trig \<and> ed_exit_reason det = ''trailing_stop''"
proof -
  have w: "{high (ex_df ! i) | i. (0::nat) \<le> i \<and> i \<le> 1} = {100, 75}"
    by (auto simp: ex_df_def le_Suc_eq nth_Cons')
  have pk: "Max {high (ex_df ! i) | i. (0::nat) \<le> i \<and> i \<le> 1} = 100"
    unfolding w by simp
  have ma: "calculate_sma 2 (map close ex_df) 1 = Some 85"
    by (simp add: calculate_sma_def ex_df_def)
  have c: "close (ex_df ! 1) = 70" by (simp add: ex_df_def)
  have "\<exists>trig det. check_exit_signal ex_df 0 1 100 (1 / 5) 2 True = Inr (trig, det)
      \<and> trig \<and> ed_exit_reason det = ''trailing_stop''"
    using check_exit_signal_priority[of 0 1 ex_df 100 "1 / 5" 2 True]
    unfolding Let_def pk ma c by (auto simp: ex_df_def)
  then show ?thesis using pk ma c by simp
qed

section \<open>Faults\<close>

lemma ebind_Inr_iff: "ebind m f = Inr y \<longleftrightarrow> (\<exists>x. m = Inr x \<and> f x = Inr y)"
  by (cases m) (simp_all add: ebind_def)

lemma ebind_Inr [simp]: "ebind (Inr x) f = f x"
  by (simp add: ebind_def)

lemma ebind_Inl [simp]: "ebind (Inl e) f = Inl e"
  by (simp add: ebind_def)

lemma fdiv_Inr_iff: "fdiv a b = Inr q \<longleftrightarrow> b \<noteq> 0 \<and> q = a / b"
  by (auto simp: fdiv_def)

section \<open>What exits leave untouched\<close>

lemma close_position_frame:
  assumes "close_position cfg sy i det df s = Inr s'"
  shows "risk_frame s s'" "fst ` set (positions s') \<subseteq> fst ` set (positions s)"
proof -
  from assms obtain p where s': "positions s' = AList.delete sy (positions s)" "risk_frame s s'"
    by (auto simp: close_position_def risk_frame_def ebind_Inr_iff Let_def split: option.splits)
  then show "risk_frame s s'" by simp
  show "fst ` set (positions s') \<subseteq> fst ` set (positions s)"
    unfolding s'(1) by (rule AList.dom_delete_subset)
qed

lemma close_each_frame:
  "close_each cfg data cl s = Inr s' \<Longrightarrow>
     risk_frame s s' \<and> fst ` set (positions s') \<subseteq> fst ` set (positions s)"
proof (induction cl arbitrary: s)
  case Nil
  then show ?case by (simp add: risk_frame_def)
next
  case (Cons c cl)
  obtain sy i det where c: "c = (sy, i, det)" by (cases c)
  from Cons.prems c obtain df s1 where
    s1: "close_position cfg sy i det df s = Inr s1" and rest: "close_each cfg data cl s1 = Inr s'"
    by (auto simp: ebind_Inr_iff split: option.splits)
  from close_position_frame[OF s1] Cons.IH[OF rest]
  have "risk_frame s s1" "risk_frame s1 s'"
    and sub: "fst ` set (positions s1) \<subseteq> fst ` set (positions s)"
             "fst ` set (positions s') \<subseteq> fst ` set (positions s1)"
    by simp_all
  then have "risk_frame s s'" by (simp add: risk_frame_def)
  moreover from sub have "fst ` set (positions s') \<subseteq> fst ` set (positions s)"
    by (rule order_trans[rotated])
  ultimately show ?case by simp
qed

lemma scan_exits_keys:
  "scan_exits cfg d data ma use ps = Inr (ps', cl) \<Longrightarrow> map fst ps' = map fst ps"
  by (induction ps arbitrary: ps' cl)
     (auto simp: ebind_Inr_iff Let_def split: option.splits if_splits)

lemma check_exits_frame:
  assumes "check_exits cfg d data ma use s = Inr s'"
  shows "risk_frame s s'" "fst ` set (positions s') \<subseteq> fst ` set (positions s)"
proof -
  from assms obtain ps' cl where
    sc: "scan_exits cfg d data ma use (positions s) = Inr (ps', cl)"
    and ce: "close_each cfg data cl (s\<lparr>positions := ps'\<rparr>) = Inr s'"
    by (auto simp: check_exits_def ebind_Inr_iff)
  from scan_exits_keys[OF sc] have "fst ` set ps' = fst ` set (positions s)"
    by (metis set_map)
  with close_each_frame[OF ce] show "risk_frame s s'" "fst ` set (positions s') \<subseteq> fst ` set (positions s)"
    by (simp_all add: risk_frame_def)
qed

lemma check_entries_halted:
  "current_date s = Some d \<Longrightarrow> daily_trading_stopped s \<Longrightarrow> check_entries cfg d signals data s = Inr s"
  by (simp add: check_entries_def check_daily_loss_limit_def)

lemma day_step_halted:
  assumes "current_date s = Some d" "daily_trading_stopped s"
  shows "day_step cfg signals data ma use d s
       = ebind (check_exits cfg d data ma use s) (\<lambda>s1. Inr (update_equity d data s1))"
proof (cases "check_exits cfg d data ma use s")
  case (Inl e)
  then show ?thesis by (simp add: day_step_def)
next
  case (Inr s1)
  from check_exits_frame(1)[OF Inr] assms have "current_date s1 = Some d" "daily_trading_stopped s1"
    by (auto simp: risk_frame_def)
  then show ?thesis using Inr by (simp add: day_step_def check_entries_halted)
qed

lemma run_loop_halted:
  assumes "run_loop cfg signals data ma use ds s = Inr s'"
    and "current_date s = Some d" "daily_trading_stopped s" "\<forall>d' \<in> set ds. d' = d"
  shows "current_date s' = Some d \<and> daily_trading_stopped s'
       \<and> fst ` set (positions s') \<subseteq> fst ` set (positions s)"
  using assms
proof (induction ds arbitrary: s)
  case Nil
  then show ?case by simp
next
  case (Cons a ds)
  then have a: "a = d" by simp
  from Cons.prems(1) obtain s2 where
    st: "day_step cfg signals data ma use d s = Inr s2"
    and rest: "run_loop cfg signals data ma use ds s2 = Inr s'"
    by (auto simp: ebind_Inr_iff a)
  from st day_step_halted[OF Cons.prems(2,3)] obtain s1 where
    ex: "check_exits cfg d data ma use s = Inr s1" and s2: "s2 = update_equity d data s1"
    by (auto simp: ebind_Inr_iff)
  from check_exits_frame[OF ex] Cons.prems(2,3) have
    h: "current_date s2 = Some d" "daily_trading_stopped s2"
       "fst ` set (positions s2) \<subseteq> fst ` set (positions s)"
    by (auto simp: s2 update_equity_def risk_frame_def Let_def)
  from Cons.prems(4) have "\<forall>d' \<in> set ds. d' = d" by simp
  from Cons.IH[OF rest h(1,2) this] have
    r: "current_date s' = Some d" "daily_trading_stopped s'"
       "fst ` set (positions s') \<subseteq> fst ` set (positions s2)"
    by simp_all
  from r(3) h(3) have "fst ` set (positions s') \<subseteq> fst ` set (positions s)"
    by (rule order_trans)
  with r show ?case by simp
qed

section \<open>The daily loss limit\<close>

text \<open>
  The day of the daily check is the timestamp itself. At a timestamp other than the
  stored one the check takes the capital of that moment as the reference of the day,
  clears the halt and lets entries through, whatever the capital has fallen to.
\<close>

lemma check_daily_loss_limit_new_timestamp:
  assumes "current_date s \<noteq> Some d" "capital s \<noteq> 0" "0 < daily_loss_limit_pct cfg"
  shows "check_daily_loss_limit cfg d s
           = Inr (False, s\<lparr>current_date := Some d, daily_start_capital := capital s,
                            daily_trading_stopped := False\<rparr>)"
  using assms by (simp add: check_daily_loss_limit_def fdiv_def)

text \<open>
  C5. The daily halt does not last through the calendar date. On the bars of
  \<open>ex_intraday\<close>, both of Monday 2024-01-01, the engine with the constructor's defaults
  opens \<open>AAA\<close> at 00:00, which leaves the cash at 9000 against a reference of 10000 for
  the day: a fall of 10 percent, beyond the limit of 3 percent. At 04:00 of the same
  date the loop nevertheless opens \<open>BBB\<close>, with the halt flag unset and the reference
  of the day moved to 9000. Even a state in which the halt flag has been set at 00:00
  has it cleared by the entry check of 04:00, which opens \<open>BBB\<close>. The loop of
  \<^verbatim>\<open>RealisticBacktester\<close>, which never runs the daily check, opens both as well.
\<close>

theorem daily_halt_lost_within_the_day:
  "trading_days (build_signals [''AAA'', ''BBB''] ex_intraday) = [63839664000, 63839678400]
 \<and> toordinal 63839678400 = toordinal 63839664000
 \<and> daily_loss_limit_pct ex_cfg = 3 / 100
 \<and> \<not> isl (run_loop ex_cfg ex_intraday ex_intraday 20 True [63839664000] (init ex_cfg))
 \<and> map fst (positions (projr (run_loop ex_cfg ex_intraday ex_intraday 20 True
                                  [63839664000] (init ex_cfg)))) = [''AAA'']
 \<and> current_date (projr (run_loop ex_cfg ex_intraday ex_intraday 20 True
                           [63839664000] (init ex_cfg))) = Some 63839664000
 \<and> daily_start_capital (projr (run_loop ex_cfg ex_intraday ex_intraday 20 True
                                  [63839664000] (init ex_cfg))) = 10000
 \<and> capital (projr (run_loop ex_cfg ex_intraday ex_intraday 20 True
                      [63839664000] (init ex_cfg))) = 9000
 \<and> (9000 - 10000) / 10000 \<le> - daily_loss_limit_pct ex_cfg
 \<and> \<not> isl (run_loop ex_cfg ex_intraday ex_intraday 20 True
              [63839664000, 63839678400] (init ex_cfg))
 \<and> map fst (positions (projr (run_loop ex_cfg ex_intraday ex_intraday 20 True
                                  [63839664000, 63839678400] (init ex_cfg))))
     = [''AAA'', ''BBB'']
 \<and> map (entry_date \<circ> snd)
       (positions (projr (run_loop ex_cfg ex_intraday ex_intraday 20 True
                            [63839664000, 63839678400] (init ex_cfg))))
     = [63839664000, 63839678400]
 \<and> \<not> daily_trading_stopped (projr (run_loop ex_cfg ex_intraday ex_intraday 20 True
                                        [63839664000, 63839678400] (init ex_cfg)))
 \<and> daily_start_capital (projr (run_loop ex_cfg ex_intraday ex_intraday 20 True
                                  [63839664000, 63839678400] (init ex_cfg))) = 9000
 \<and> \<not> isl (check_entries ex_cfg 63839678400 ex_intraday ex_intraday
              ((projr (run_loop ex_cfg ex_intraday ex_intraday 20 True
                         [63839664000] (init ex_cfg)))
                 \<lparr>daily_trading_stopped := True\<rparr>))
 \<and> map fst (positions (projr (check_entries ex_cfg 63839678400 ex_intraday ex_intraday
              ((projr (run_loop ex_cfg ex_intraday ex_intraday 20 True
                         [63839664000] (init ex_cfg)))
                 \<lparr>daily_trading_stopped := True\<rparr>))))
     = [''AAA'', ''BBB'']
 \<and> \<not> daily_trading_stopped
       (projr (check_entries ex_cfg 63839678400 ex_intraday ex_intraday
              ((projr (run_loop ex_cfg ex_intraday ex_intraday 20 True
                         [63839664000] (init ex_cfg)))
                 \<lparr>daily_trading_stopped := True\<rparr>)))
 \<and> \<not> isl (realistic_loop ex_cfg ex_intraday ex_intraday 20 True [] [''AAA'', ''BBB'']
              [63839664000, 63839678400] (init ex_cfg))
 \<and> map fst (positions (projr (realistic_loop ex_cfg ex_intraday ex_intraday 20 True []
              [''AAA'', ''BBB''] [63839664000, 63839678400] (init ex_cfg))))
     = [''AAA'', ''BBB'']"
  by code_simp

section \<open>The weekly size multiplier\<close>

text \<open>
  C6. Once a weekly check has left the size multiplier at 0.5, a further check at a date
  of the same ISO week number leaves it at 0.5 whatever the capital has become; a check
  never produces a multiplier other than 1 or 0.5; and a check at a date whose ISO week
  number differs from the stored one resets the multiplier to 1 and
  \<open>weekly_start_capital\<close> to the current capital, whatever (non-zero) level that is,
  for a positive weekly limit.
\<close>

theorem weekly_multiplier_idempotent_reset:
  "(check_weekly_loss_limit cfg d1 s = Inr s1 \<and> size_multiplier s1 = 1 / 2
      \<and> isocalendar_week d2 = isocalendar_week d1
    \<longrightarrow> (\<exists>s2. check_weekly_loss_limit cfg d2 (s1\<lparr>capital := c\<rparr>) = Inr s2
           \<and> size_multiplier s2 = 1 / 2
           \<and> weekly_start_capital s2 = weekly_start_capital s1))
 \<and> (check_weekly_loss_limit cfg d1 s = Inr s1 \<and> (size_multiplier s = 1 \<or> size_multiplier s = 1 / 2)
    \<longrightarrow> (size_multiplier s1 = 1 \<or> size_multiplier s1 = 1 / 2)
      \<and> current_week s1 = Some (isocalendar_week d1))
 \<and> (current_week s \<noteq> Some (isocalendar_week d1) \<and> capital s \<noteq> 0 \<and> 0 < weekly_loss_limit_pct cfg
    \<longrightarrow> check_weekly_loss_limit cfg d1 s
          = Inr (s\<lparr>current_week := Some (isocalendar_week d1),
                   weekly_start_capital := capital s, size_multiplier := 1\<rparr>))"
proof (intro conjI impI)
  assume h: "check_weekly_loss_limit cfg d1 s = Inr s1 \<and> size_multiplier s1 = 1 / 2
      \<and> isocalendar_week d2 = isocalendar_week d1"
  then have "current_week s1 = Some (isocalendar_week d1) \<and> weekly_start_capital s1 \<noteq> 0"
    by (auto simp: check_weekly_loss_limit_def Let_def ebind_Inr_iff fdiv_Inr_iff split: if_splits)
  with h show "\<exists>s2. check_weekly_loss_limit cfg d2 (s1\<lparr>capital := c\<rparr>) = Inr s2
           \<and> size_multiplier s2 = 1 / 2
           \<and> weekly_start_capital s2 = weekly_start_capital s1"
    by (simp add: check_weekly_loss_limit_def Let_def fdiv_def)
next
  assume h: "check_weekly_loss_limit cfg d1 s = Inr s1
      \<and> (size_multiplier s = 1 \<or> size_multiplier s = 1 / 2)"
  then show "size_multiplier s1 = 1 \<or> size_multiplier s1 = 1 / 2"
    by (auto simp: check_weekly_loss_limit_def Let_def ebind_Inr_iff fdiv_Inr_iff split: if_splits)
  from h show "current_week s1 = Some (isocalendar_week d1)"
    by (auto simp: check_weekly_loss_limit_def Let_def ebind_Inr_iff fdiv_Inr_iff split: if_splits)
next
  assume "current_week s \<noteq> Some (isocalendar_week d1) \<and> capital s \<noteq> 0
      \<and> 0 < weekly_loss_limit_pct cfg"
  then show "check_weekly_loss_limit cfg d1 s
          = Inr (s\<lparr>current_week := Some (isocalendar_week d1),
                   weekly_start_capital := capital s, size_multiplier := 1\<rparr>)"
    by (simp add: check_weekly_loss_limit_def Let_def fdiv_def)
qed

theorem weekly_multiplier_idempotent_reset_witness:
  "(\<exists>s1 s2. check_weekly_loss_limit ex_cfg 63839664000 ex_fallen = Inr s1
       \<and> size_multiplier s1 = 1 / 2
       \<and> isocalendar_week 63839750400 = isocalendar_week 63839664000
       \<and> check_weekly_loss_limit ex_cfg 63839750400 (s1\<lparr>capital := 5000\<rparr>) = Inr s2
       \<and> size_multiplier s2 = 1 / 2)
 \<and> isocalendar_week 63840268800 = 2
 \<and> check_weekly_loss_limit ex_cfg 63840268800 (ex_fallen\<lparr>size_multiplier := 1 / 2, capital := 5000\<rparr>)
     = Inr (ex_fallen\<lparr>size_multiplier := 1 / 2, capital := 5000, current_week := Some 2,
                      weekly_start_capital := 5000, size_multiplier := 1\<rparr>)"
proof -
  have w0: "isocalendar_week 63839664000 = 1" "isocalendar_week 63839750400 = 1"
    "isocalendar_week 63840268800 = 2"
    by code_simp+
  have s1: "check_weekly_loss_limit ex_cfg 63839664000 ex_fallen
              = Inr (ex_fallen\<lparr>size_multiplier := 1 / 2\<rparr>)"
    by (simp add: check_weekly_loss_limit_def w0 ex_fallen_def ex_cfg_def init_def fdiv_def Let_def)
  have m: "size_multiplier (ex_fallen\<lparr>size_multiplier := 1 / 2\<rparr>) = 1 / 2" by simp
  from weekly_multiplier_idempotent_reset
      [where cfg = ex_cfg and ?d1.0 = 63839664000 and s = ex_fallen
         and ?s1.0 = "ex_fallen\<lparr>size_multiplier := 1 / 2\<rparr>" and ?d2.0 = 63839750400 and c = 5000]
    s1 m w0
  have a: "\<exists>s2. check_weekly_loss_limit ex_cfg 63839750400
               (ex_fallen\<lparr>size_multiplier := 1 / 2, capital := 5000\<rparr>) = Inr s2
           \<and> size_multiplier s2 = 1 / 2"
    by simp blast
  have b: "check_weekly_loss_limit ex_cfg 63840268800 (ex_fallen\<lparr>size_multiplier := 1 / 2, capital := 5000\<rparr>)
     = Inr (ex_fallen\<lparr>size_multiplier := 1 / 2, capital := 5000, current_week := Some 2,
                      weekly_start_capital := 5000, size_multiplier := 1\<rparr>)"
    using weekly_multiplier_idempotent_reset
      [where cfg = ex_cfg and ?d1.0 = 63840268800
         and s = "ex_fallen\<lparr>size_multiplier := 1 / 2, capital := 5000\<rparr>"]
    by (simp add: w0 ex_fallen_def ex_cfg_def init_def)
  from a b s1 w0 show ?thesis by auto
qed

section \<open>One opening, one closing\<close>

lemma update_fresh: "map_of ps k = None \<Longrightarrow> AList.update k v ps = ps @ [(k, v)]"
  by (induction ps) (auto split: if_splits)

lemma open_notional_append:
  "open_notional (ps @ [(sy, p)]) = open_notional ps + num_contracts p * entry_price p"
  by (simp add: open_notional_def)

lemma open_notional_delete:
  "distinct (map fst ps) \<Longrightarrow> map_of ps sy = Some p \<Longrightarrow>
     open_notional (AList.delete sy ps) = open_notional ps - num_contracts p * entry_price p"
proof (induction ps)
  case Nil
  then show ?case by simp
next
  case (Cons a ps)
  obtain k v where a: "a = (k, v)" by (cases a)
  show ?case
  proof (cases "k = sy")
    case True
    with Cons.prems a have "v = p" "sy \<notin> fst ` set ps" by auto
    then show ?thesis using a True by (simp add: open_notional_def)
  next
    case False
    with Cons a show ?thesis by (simp add: open_notional_def)
  qed
qed

lemma open_position_cases:
  assumes "open_position cfg sy date price df s = Inr s'"
  shows "s' = s \<or>
    (\<exists>sizing idx. calculate_position_size (sizer s) (price * (1 + slippage_pct cfg))
                     (int (length (positions s))) = Inr sizing \<and> can_open sizing
       \<and> index_of date df = Some idx
       \<and> price * (1 + slippage_pct cfg) \<noteq> 0
       \<and> sz_num_contracts sizing = sz_position_size_usd sizing / (price * (1 + slippage_pct cfg))
       \<and> s' = s\<lparr>positions :=
                   AList.update sy
                     \<lparr>symbol = sy, entry_date = date, entry_index = idx,
                      entry_price = price * (1 + slippage_pct cfg),
                      position_size_usd = sz_position_size_usd sizing * size_multiplier s
                         - sz_position_size_usd sizing * size_multiplier s * commission_pct cfg,
                      num_contracts = sz_num_contracts sizing * size_multiplier s,
                      peak_price = price * (1 + slippage_pct cfg),
                      peak_date = date\<rparr> (positions s),
                 capital := capital s - sz_position_size_usd sizing * size_multiplier s\<rparr>)"
proof -
  from assms obtain sizing where
    sz: "calculate_position_size (sizer s) (price * (1 + slippage_pct cfg))
           (int (length (positions s))) = Inr sizing"
    by (auto simp: open_position_def Let_def ebind_Inr_iff)
  show ?thesis
  proof (cases "can_open sizing")
    case False
    with assms sz show ?thesis by (simp add: open_position_def Let_def)
  next
    case True
    with sz have nz: "price * (1 + slippage_pct cfg) \<noteq> 0
        \<and> sz_num_contracts sizing = sz_position_size_usd sizing / (price * (1 + slippage_pct cfg))"
      by (auto simp: calculate_position_size_def Let_def ebind_Inr_iff fdiv_Inr_iff split: if_splits)
    from assms sz True obtain idx where "index_of date df = Some idx"
      by (auto simp: open_position_def Let_def split: option.splits)
    with assms sz True nz show ?thesis
      by (auto simp: open_position_def Let_def)
  qed
qed

lemma open_position_conserved:
  assumes "open_position cfg sy date price df s = Inr s'" and "map_of (positions s) sy = None"
  shows "conserved s' = conserved s"
  using open_position_cases[OF assms(1)] assms(2)
  by (auto simp: conserved_def update_fresh open_notional_append)

lemma close_position_cases:
  assumes "close_position cfg sy i det df s = Inr s'"
  shows "\<exists>p. map_of (positions s) sy = Some p \<and> entry_price p \<noteq> 0 \<and>
     s' = s\<lparr>capital := capital s + (num_contracts p * (ed_close det * (1 - slippage_pct cfg))
                - num_contracts p * (ed_close det * (1 - slippage_pct cfg)) * commission_pct cfg),
            trades := trades s @
              [\<lparr>t_symbol = sy, t_entry_date = entry_date p, t_entry_price = entry_price p,
                exit_date = ed_timestamp det,
                exit_price = ed_close det * (1 - slippage_pct cfg),
                t_position_size_usd = position_size_usd p,
                t_num_contracts = num_contracts p,
                return_pct = (ed_close det * (1 - slippage_pct cfg) - entry_price p) / entry_price p,
                return_usd = num_contracts p * (ed_close det * (1 - slippage_pct cfg) - entry_price p)
                   - num_contracts p * (ed_close det * (1 - slippage_pct cfg)) * commission_pct cfg,
                holding_days = ed_holding_days det,
                exit_reason = ed_exit_reason det,
                t_peak_price = peak_price p,
                max_adverse_excursion =
                  map_option (\<lambda>m. (m - entry_price p) / entry_price p)
                    (list_min (map low (iloc_slice (entry_index p) i df)))\<rparr>],
            positions := AList.delete sy (positions s),
            sizer := update_account_size (sizer s)
               (capital s + (num_contracts p * (ed_close det * (1 - slippage_pct cfg))
                - num_contracts p * (ed_close det * (1 - slippage_pct cfg)) * commission_pct cfg))\<rparr>"
  using assms
  by (auto simp: close_position_def Let_def ebind_Inr_iff fdiv_Inr_iff split: option.splits)

lemma close_position_conserved:
  assumes "close_position cfg sy i det df s = Inr s'" and "distinct (map fst (positions s))"
  shows "conserved s' = conserved s"
proof -
  from close_position_cases[OF assms(1)] obtain p where
    p: "map_of (positions s) sy = Some p" and
    c: "capital s' = capital s + (num_contracts p * (ed_close det * (1 - slippage_pct cfg))
                - num_contracts p * (ed_close det * (1 - slippage_pct cfg)) * commission_pct cfg)" and
    t: "sum_list (map return_usd (trades s')) = sum_list (map return_usd (trades s))
          + (num_contracts p * (ed_close det * (1 - slippage_pct cfg) - entry_price p)
                   - num_contracts p * (ed_close det * (1 - slippage_pct cfg)) * commission_pct cfg)" and
    ps: "positions s' = AList.delete sy (positions s)"
    by auto
  show ?thesis
    unfolding conserved_def c t ps open_notional_delete[OF assms(2) p]
    by (simp add: algebra_simps)
qed

section \<open>Commission\<close>

text \<open>
  What an opening does to the cash: the units booked are the sized notional over the
  entry price, the cash falls by that notional and by nothing else, and the commission
  on it only lowers the amount recorded as invested.
\<close>

lemma open_position_debits_notional:
  assumes "open_position cfg sy date price df s = Inr s'"
    and "int (length (positions s)) < max_positions (sizer s)"
  shows "\<exists>p sizing. map_of (positions s') sy = Some p
          \<and> calculate_position_size (sizer s) (price * (1 + slippage_pct cfg))
               (int (length (positions s))) = Inr sizing
          \<and> (let notional = sz_position_size_usd sizing * size_multiplier s;
                  commission = notional * commission_pct cfg
              in entry_price p = price * (1 + slippage_pct cfg)
               \<and> num_contracts p * entry_price p = notional
               \<and> position_size_usd p = notional - commission
               \<and> capital s' = capital s - notional)"
proof -
  note o = assms(1)
  from assms obtain sizing where
    sz: "calculate_position_size (sizer s) (price * (1 + slippage_pct cfg))
           (int (length (positions s))) = Inr sizing" and co: "can_open sizing"
    by (auto simp: open_position_def Let_def ebind_Inr_iff calculate_position_size_def)
  from o sz co obtain idx where idx: "index_of date df = Some idx"
    by (auto simp: open_position_def Let_def split: option.splits)
  from sz co have nz: "price * (1 + slippage_pct cfg) \<noteq> 0"
      "sz_num_contracts sizing = sz_position_size_usd sizing / (price * (1 + slippage_pct cfg))"
    by (auto simp: calculate_position_size_def Let_def ebind_Inr_iff fdiv_Inr_iff split: if_splits)
  let ?p = "\<lparr>symbol = sy, entry_date = date, entry_index = idx,
              entry_price = price * (1 + slippage_pct cfg),
              position_size_usd = sz_position_size_usd sizing * size_multiplier s
                 - sz_position_size_usd sizing * size_multiplier s * commission_pct cfg,
              num_contracts = sz_num_contracts sizing * size_multiplier s,
              peak_price = price * (1 + slippage_pct cfg),
              peak_date = date\<rparr>"
  from o sz co idx have s': "s' = s\<lparr>positions := AList.update sy ?p (positions s),
                 capital := capital s - sz_position_size_usd sizing * size_multiplier s\<rparr>"
    by (simp add: open_position_def Let_def)
  have "map_of (positions s') sy = Some ?p" by (simp add: s' AList.update_conv')
  moreover have "num_contracts ?p * entry_price ?p = sz_position_size_usd sizing * size_multiplier s"
    using nz by simp
  ultimately show ?thesis
    using sz by (intro exI[of _ ?p] exI[of _ sizing]) (simp add: Let_def s')
qed

text \<open>
  C2. No commission is charged against the cash at entry. With the constructor's
  defaults, opening \<open>AAA\<close> at a close of 100 books 10000/1001 units at 100.1, a notional
  of 1000 on which the commission is 1; the cash falls from 10000 to 9000, by the
  notional alone, and the commission only lowers the recorded \<open>position_size_usd\<close> to
  999. With the slippage at zero, the run over the single bar of \<open>ex_one_bar\<close> buys 10
  units at 100 and sells them at 100 when the run ends: the trade returns -1 and the
  cash ends at 9999, so the round trip has paid the commission of the exit only, where
  a commission at entry and another at exit would leave 9998.
\<close>

theorem entry_commission_never_reaches_cash:
  "commission_pct ex_cfg = 1 / 1000 \<and> capital (init ex_cfg) = 10000
 \<and> \<not> isl (open_position ex_cfg ''AAA'' 63839664000 100 ex_bars (init ex_cfg))
 \<and> map (\<lambda>(sy, p). num_contracts p * entry_price p)
       (positions (projr (open_position ex_cfg ''AAA'' 63839664000 100 ex_bars (init ex_cfg))))
     = [1000]
 \<and> map (position_size_usd \<circ> snd)
       (positions (projr (open_position ex_cfg ''AAA'' 63839664000 100 ex_bars (init ex_cfg))))
     = [999]
 \<and> capital (projr (open_position ex_cfg ''AAA'' 63839664000 100 ex_bars (init ex_cfg)))
     = 10000 - 1000
 \<and> commission_pct ex_cfg0 = 1 / 1000 \<and> slippage_pct ex_cfg0 = 0
 \<and> initial_capital ex_cfg0 = 10000
 \<and> \<not> isl (run ex_cfg0 [''AAA''] ex_one_bar 20 True)
 \<and> map t_entry_price (trades (projr (run ex_cfg0 [''AAA''] ex_one_bar 20 True))) = [100]
 \<and> map exit_price (trades (projr (run ex_cfg0 [''AAA''] ex_one_bar 20 True))) = [100]
 \<and> map t_num_contracts (trades (projr (run ex_cfg0 [''AAA''] ex_one_bar 20 True))) = [10]
 \<and> map return_usd (trades (projr (run ex_cfg0 [''AAA''] ex_one_bar 20 True))) = [- 1]
 \<and> positions (projr (run ex_cfg0 [''AAA''] ex_one_bar 20 True)) = []
 \<and> capital (projr (run ex_cfg0 [''AAA''] ex_one_bar 20 True)) = 9999
 \<and> capital (projr (run ex_cfg0 [''AAA''] ex_one_bar 20 True))
     \<noteq> 10000 - 2 * (commission_pct ex_cfg0 * (10 * 100))"
  by code_simp

section \<open>The ledger through a run\<close>

lemma scan_exits_props:
  "scan_exits cfg d data ma use ps = Inr (ps', cl) \<Longrightarrow>
     map fst ps' = map fst ps \<and> open_notional ps' = open_notional ps"
  by (induction ps arbitrary: ps' cl)
     (auto simp: ebind_Inr_iff Let_def open_notional_def update_peak_def
           split: option.splits if_splits)

lemma close_position_inv:
  "close_position cfg sy i det df s = Inr s' \<Longrightarrow> ledger_inv K s \<Longrightarrow> ledger_inv K s'"
  using close_position_conserved[of cfg sy i det df s s'] close_position_cases[of cfg sy i det df s s']
  by (auto simp: ledger_inv_def AList.distinct_delete)

lemma close_each_inv:
  "close_each cfg data cl s = Inr s' \<Longrightarrow> ledger_inv K s \<Longrightarrow> ledger_inv K s'"
proof (induction cl arbitrary: s)
  case Nil
  then show ?case by simp
next
  case (Cons c cl)
  obtain sy i det where c: "c = (sy, i, det)" by (cases c)
  from Cons.prems(1) c obtain df s1 where
    s1: "close_position cfg sy i det df s = Inr s1" and rest: "close_each cfg data cl s1 = Inr s'"
    by (auto simp: ebind_Inr_iff split: option.splits)
  from Cons.IH[OF rest close_position_inv[OF s1 Cons.prems(2)]] show ?case .
qed

lemma check_exits_inv:
  assumes "check_exits cfg d data ma use s = Inr s'" and "ledger_inv K s"
  shows "ledger_inv K s'"
proof -
  from assms(1) obtain ps' cl where
    sc: "scan_exits cfg d data ma use (positions s) = Inr (ps', cl)"
    and ce: "close_each cfg data cl (s\<lparr>positions := ps'\<rparr>) = Inr s'"
    by (auto simp: check_exits_def ebind_Inr_iff)
  from scan_exits_props[OF sc] assms(2) have "ledger_inv K (s\<lparr>positions := ps'\<rparr>)"
    by (simp add: ledger_inv_def conserved_def)
  from close_each_inv[OF ce this] show ?thesis .
qed

lemma open_position_inv:
  assumes "open_position cfg sy date price df s = Inr s'" and "map_of (positions s) sy = None"
    and "ledger_inv K s"
  shows "ledger_inv K s'"
proof -
  from open_position_cases[OF assms(1)]
  have "distinct (map fst (positions s'))"
    using assms(3) by (auto simp: ledger_inv_def AList.distinct_update)
  with open_position_conserved[OF assms(1,2)] assms(3) show ?thesis
    by (simp add: ledger_inv_def)
qed

lemma open_position_keys:
  assumes "open_position cfg sy date price df s = Inr s'"
  shows "fst ` set (positions s') \<subseteq> insert sy (fst ` set (positions s))"
proof -
  from open_position_cases[OF assms]
  have "positions s' = positions s \<or> (\<exists>p. positions s' = AList.update sy p (positions s))"
    by auto
  then consider "positions s' = positions s"
    | p where "positions s' = AList.update sy p (positions s)" by blast
  then show ?thesis
  proof cases
    case 1
    then show ?thesis by auto
  next
    case 2
    then have "fst ` set (positions s') = {sy} \<union> fst ` set (positions s)"
      by (simp add: AList.dom_update)
    then show ?thesis by blast
  qed
qed

lemma map_of_None_iff: "map_of ps k = None \<longleftrightarrow> k \<notin> fst ` set ps"
  by (simp add: map_of_eq_None_iff)

lemma open_each_inv:
  "open_each cfg data opps s = Inr s' \<Longrightarrow> ledger_inv K s \<Longrightarrow>
   distinct (map opp_symbol opps) \<Longrightarrow>
   \<forall>opp \<in> set opps. map_of (positions s) (opp_symbol opp) = None \<Longrightarrow> ledger_inv K s'"
proof (induction opps arbitrary: s)
  case Nil
  then show ?case by simp
next
  case (Cons opp opps)
  from Cons.prems(1) obtain df s1 where
    s1: "open_position cfg (opp_symbol opp) (opp_date opp) (opp_price opp) df s = Inr s1"
    and rest: "open_each cfg data opps s1 = Inr s'"
    by (auto simp: ebind_Inr_iff split: option.splits)
  from Cons.prems(4) have fresh: "map_of (positions s) (opp_symbol opp) = None" by simp
  have inv1: "ledger_inv K s1" by (rule open_position_inv[OF s1 fresh Cons.prems(2)])
  have "\<forall>opp' \<in> set opps. map_of (positions s1) (opp_symbol opp') = None"
  proof
    fix opp' assume opp': "opp' \<in> set opps"
    with Cons.prems(3) have "opp_symbol opp' \<noteq> opp_symbol opp" by (metis distinct.simps(2) imageI list.simps(9) set_map)
    moreover from opp' Cons.prems(4) have "opp_symbol opp' \<notin> fst ` set (positions s)"
      by (simp add: map_of_None_iff)
    ultimately have "opp_symbol opp' \<notin> fst ` set (positions s1)"
      using open_position_keys[OF s1] by blast
    then show "map_of (positions s1) (opp_symbol opp') = None" by (simp add: map_of_None_iff)
  qed
  with Cons.IH[OF rest inv1] Cons.prems(3) show ?case by simp
qed

lemma entry_opportunities_symbols:
  "map opp_symbol (entry_opportunities d ps signals)
     = map fst (filter (\<lambda>(sy, df). map_of ps sy = None
                          \<and> filter (\<lambda>r. timestamp r = d \<and> entry_signal r) df \<noteq> []) signals)"
proof (induction signals)
  case Nil
  then show ?case by simp
next
  case (Cons a signals)
  obtain sy df where a: "a = (sy, df)" by (cases a)
  show ?case
  proof (cases "map_of ps sy")
    case None
    with Cons a show ?thesis by (simp split: list.splits)
  next
    case (Some p)
    with Cons a show ?thesis by simp
  qed
qed

lemma entry_opportunities_fresh:
  "opp \<in> set (entry_opportunities d ps signals) \<Longrightarrow> map_of ps (opp_symbol opp) = None"
  by (induction signals) (auto split: list.splits if_splits)

lemma entry_opportunities_distinct:
  "distinct (map fst signals) \<Longrightarrow> distinct (map opp_symbol (entry_opportunities d ps signals))"
  unfolding entry_opportunities_symbols by (rule distinct_map_filter)

lemma take_sorted_distinct:
  assumes "distinct (map opp_symbol opps)"
  shows "distinct (map opp_symbol (take k (sort_by_strength opps)))"
proof -
  from assms have "distinct (map opp_symbol (sort_by_strength opps))"
    by (simp add: sort_by_strength_def distinct_map)
  then have "distinct (take k (map opp_symbol (sort_by_strength opps)))"
    by (rule distinct_take)
  then show ?thesis by (simp add: take_map)
qed

lemma take_sorted_subset: "set (take k (sort_by_strength opps)) \<subseteq> set opps"
  using set_take_subset[of k "sort_by_strength opps"] by (simp add: sort_by_strength_def)

lemma check_daily_loss_limit_ledger:
  "check_daily_loss_limit cfg d s = Inr (b, s') \<Longrightarrow>
     positions s' = positions s \<and> capital s' = capital s \<and> trades s' = trades s
     \<and> sizer s' = sizer s"
  by (auto simp: check_daily_loss_limit_def Let_def ebind_Inr_iff split: if_splits)

lemma check_weekly_loss_limit_ledger:
  "check_weekly_loss_limit cfg d s = Inr s' \<Longrightarrow>
     positions s' = positions s \<and> capital s' = capital s \<and> trades s' = trades s
     \<and> sizer s' = sizer s"
  by (auto simp: check_weekly_loss_limit_def Let_def ebind_Inr_iff split: if_splits)

lemma check_entries_inv:
  assumes "check_entries cfg d signals data s = Inr s'" and "ledger_inv K s"
    and "distinct (map fst signals)"
  shows "ledger_inv K s'"
proof -
  from assms(1) obtain r where r: "check_daily_loss_limit cfg d s = Inr r"
    by (auto simp: check_entries_def ebind_Inr_iff)
  obtain stop s1 where r': "r = (stop, s1)" by (cases r)
  from assms(1)[unfolded check_entries_def Let_def] r r' have
    d: "check_daily_loss_limit cfg d s = Inr (stop, s1)"
    and r1: "(if stop then Inr s1
        else ebind (check_weekly_loss_limit cfg d s1) (\<lambda>s2.
         if int (length (positions s2)) \<ge> bt_max_positions cfg then Inr s2
         else open_each cfg data
                (take (nat (bt_max_positions cfg - int (length (positions s2))))
                   (sort_by_strength (entry_opportunities d (positions s2) signals))) s2)) = Inr s'"
    by simp_all
  from check_daily_loss_limit_ledger[OF d] assms(2) have i1: "ledger_inv K s1"
    by (simp add: ledger_inv_def conserved_def)
  show ?thesis
  proof (cases stop)
    case True
    with r1 i1 show ?thesis by simp
  next
    case False
    with r1 obtain s2 where
      w: "check_weekly_loss_limit cfg d s1 = Inr s2"
      and r2: "(if int (length (positions s2)) \<ge> bt_max_positions cfg then Inr s2
         else open_each cfg data
                (take (nat (bt_max_positions cfg - int (length (positions s2))))
                   (sort_by_strength (entry_opportunities d (positions s2) signals))) s2) = Inr s'"
      by (auto simp: ebind_Inr_iff)
    from check_weekly_loss_limit_ledger[OF w] i1 have i2: "ledger_inv K s2"
      by (simp add: ledger_inv_def conserved_def)
    show ?thesis
    proof (cases "int (length (positions s2)) \<ge> bt_max_positions cfg")
      case True
      with r2 i2 show ?thesis by simp
    next
      case False
      with r2 have oe: "open_each cfg data
                (take (nat (bt_max_positions cfg - int (length (positions s2))))
                   (sort_by_strength (entry_opportunities d (positions s2) signals))) s2 = Inr s'"
        by simp
      show ?thesis
      proof (rule open_each_inv[OF oe i2])
        show "distinct (map opp_symbol
                (take (nat (bt_max_positions cfg - int (length (positions s2))))
                   (sort_by_strength (entry_opportunities d (positions s2) signals))))"
          by (rule take_sorted_distinct[OF entry_opportunities_distinct[OF assms(3)]])
        show "\<forall>opp \<in> set (take (nat (bt_max_positions cfg - int (length (positions s2))))
                   (sort_by_strength (entry_opportunities d (positions s2) signals))).
                map_of (positions s2) (opp_symbol opp) = None"
          using take_sorted_subset entry_opportunities_fresh by blast
      qed
    qed
  qed
qed

lemma update_equity_inv: "ledger_inv K s \<Longrightarrow> ledger_inv K (update_equity d data s)"
  by (simp add: update_equity_def Let_def ledger_inv_def conserved_def)

lemma day_step_inv:
  assumes "day_step cfg signals data ma use d s = Inr s'" and "ledger_inv K s"
    and "distinct (map fst signals)"
  shows "ledger_inv K s'"
proof -
  from assms(1) obtain s1 s2 where
    a: "check_exits cfg d data ma use s = Inr s1"
    and b: "check_entries cfg d signals data s1 = Inr s2"
    and c: "s' = update_equity d data s2"
    by (auto simp: day_step_def ebind_Inr_iff)
  from check_entries_inv[OF b check_exits_inv[OF a assms(2)] assms(3)] c show ?thesis
    by (simp add: update_equity_inv)
qed

lemma run_loop_inv:
  "run_loop cfg signals data ma use ds s = Inr s' \<Longrightarrow> ledger_inv K s \<Longrightarrow>
   distinct (map fst signals) \<Longrightarrow> ledger_inv K s'"
proof (induction ds arbitrary: s)
  case Nil
  then show ?case by simp
next
  case (Cons d ds)
  from Cons.prems(1) obtain s1 where
    a: "day_step cfg signals data ma use d s = Inr s1"
    and b: "run_loop cfg signals data ma use ds s1 = Inr s'"
    by (auto simp: ebind_Inr_iff)
  from Cons.IH[OF b day_step_inv[OF a Cons.prems(2,3)] Cons.prems(3)] show ?case .
qed

lemma close_all_loop_inv:
  "close_all_loop cfg data sys s = Inr s' \<Longrightarrow> ledger_inv K s \<Longrightarrow>
     ledger_inv K s' \<and> fst ` set (positions s') = fst ` set (positions s) - set sys"
proof (induction sys arbitrary: s)
  case Nil
  then show ?case by simp
next
  case (Cons sy sys)
  from Cons.prems(1) obtain p df where
    p: "map_of (positions s) sy = Some p" and df: "map_of data sy = Some df" and ne: "df \<noteq> []"
    by (auto split: option.splits if_splits)
  with Cons.prems(1) obtain det s1 where
    c: "close_position cfg sy (length df - 1) det df s = Inr s1"
    and rest: "close_all_loop cfg data sys s1 = Inr s'"
    by (auto simp: ebind_Inr_iff Let_def)
  from close_position_cases[OF c] have ps1: "positions s1 = AList.delete sy (positions s)"
    by auto
  have k1: "fst ` set (positions s1) = fst ` set (positions s) - {sy}"
    unfolding ps1 by (auto simp: AList.delete_eq)
  from Cons.IH[OF rest close_position_inv[OF c Cons.prems(2)]] k1 show ?case by auto
qed

lemma build_signals_distinct: "distinct (map fst (build_signals symbols data))"
proof -
  have "distinct (map fst acc) \<Longrightarrow>
        distinct (map fst (fold (\<lambda>sy signals. case map_of data sy of
                             None \<Rightarrow> signals
                           | Some df \<Rightarrow> AList.update sy df signals) symbols acc))" for acc
    by (induction symbols arbitrary: acc) (auto simp: AList.distinct_update split: option.splits)
  then show ?thesis by (simp add: build_signals_def)
qed

lemma init_inv: "ledger_inv (initial_capital cfg) (init cfg)"
  by (simp add: ledger_inv_def conserved_def init_def open_notional_def)

lemma run_ledger:
  assumes "run cfg symbols data ma use = Inr s'"
  shows "ledger_inv (initial_capital cfg) s' \<and> positions s' = []"
proof -
  from assms obtain s1 where
    a: "run_loop cfg (build_signals symbols data) data ma use
          (trading_days (build_signals symbols data)) (init cfg) = Inr s1"
    and b: "close_all_positions cfg data s1 = Inr s'"
    by (auto simp: run_def Let_def ebind_Inr_iff)
  from run_loop_inv[OF a init_inv build_signals_distinct]
  have i1: "ledger_inv (initial_capital cfg) s1" .
  from b have "close_all_loop cfg data (map fst (positions s1)) s1 = Inr s'"
    by (simp add: close_all_positions_def)
  from close_all_loop_inv[OF this i1] show ?thesis by auto
qed

section \<open>Capital conservation\<close>

text \<open>
  C1. The quantity cash plus the notional of the open positions (quantity times entry
  price) minus the \<open>return_usd\<close> of the recorded trades is preserved by every
  \<^verbatim>\<open>_open_position\<close> the engine makes (the symbol has no open position) and by every
  \<^verbatim>\<open>_close_position\<close>, and equals \<open>initial_capital\<close> after any number of days of
  the loop. A completed run ends with no open position, so its final cash plus the
  (empty) open notional is \<open>initial_capital\<close> plus the sum of \<open>return_usd\<close> over its
  trades.
\<close>

theorem capital_conservation:
  "(open_position cfg sy date price df s = Inr s' \<and> map_of (positions s) sy = None
      \<longrightarrow> conserved s' = conserved s)
 \<and> (close_position cfg sy i det df s = Inr s' \<and> distinct (map fst (positions s))
      \<longrightarrow> conserved s' = conserved s)
 \<and> (run_loop cfg signals data ma use ds (init cfg) = Inr s1 \<and> distinct (map fst signals)
      \<longrightarrow> conserved s1 = initial_capital cfg)
 \<and> (run cfg symbols data ma use = Inr s2
      \<longrightarrow> positions s2 = []
        \<and> conserved s2 = initial_capital cfg
        \<and> capital s2 + open_notional (positions s2)
            = initial_capital cfg + sum_list (map return_usd (trades s2)))"
proof (intro conjI impI)
  assume "open_position cfg sy date price df s = Inr s' \<and> map_of (positions s) sy = None"
  then show "conserved s' = conserved s" using open_position_conserved by blast
next
  assume "close_position cfg sy i det df s = Inr s' \<and> distinct (map fst (positions s))"
  then show "conserved s' = conserved s" using close_position_conserved by blast
next
  assume "run_loop cfg signals data ma use ds (init cfg) = Inr s1 \<and> distinct (map fst signals)"
  then have "ledger_inv (initial_capital cfg) s1" using run_loop_inv init_inv by blast
  then show "conserved s1 = initial_capital cfg" by (simp add: ledger_inv_def)
next
  assume r: "run cfg symbols data ma use = Inr s2"
  from run_ledger[OF r] show "positions s2 = []" by simp
  from run_ledger[OF r] show "conserved s2 = initial_capital cfg" by (simp add: ledger_inv_def)
  from run_ledger[OF r] have "positions s2 = []" "conserved s2 = initial_capital cfg"
    by (simp_all add: ledger_inv_def)
  then show "capital s2 + open_notional (positions s2)
            = initial_capital cfg + sum_list (map return_usd (trades s2))"
    by (simp add: conserved_def open_notional_def)
qed

theorem capital_conservation_witness:
  "\<exists>s1 s2 s3. open_position ex_cfg ''AAA'' 63839664000 100 ex_bars (init ex_cfg) = Inr s1
      \<and> map_of (positions (init ex_cfg)) ''AAA'' = None
      \<and> positions s1 \<noteq> [] \<and> conserved s1 = 10000
      \<and> close_position ex_cfg ''AAA'' 2
           \<lparr>ed_close = 82, ed_timestamp = 63839836800, ed_holding_days = 2,
            ed_exit_reason = ''end_of_backtest''\<rparr> ex_bars s1 = Inr s2
      \<and> trades s2 \<noteq> [] \<and> conserved s2 = 10000
      \<and> run ex_cfg [''AAA''] ex_data 20 True = Inr s3
      \<and> trades s3 \<noteq> [] \<and> positions s3 = []
      \<and> capital s3 = 10000 + sum_list (map return_usd (trades s3))"
proof -
  have "case open_position ex_cfg ''AAA'' 63839664000 100 ex_bars (init ex_cfg) of
          Inl e \<Rightarrow> False
        | Inr s1 \<Rightarrow> positions s1 \<noteq> [] \<and> distinct (map fst (positions s1))
            \<and> (case close_position ex_cfg ''AAA'' 2
                 \<lparr>ed_close = 82, ed_timestamp = 63839836800, ed_holding_days = 2,
                  ed_exit_reason = ''end_of_backtest''\<rparr> ex_bars s1 of
                 Inl e \<Rightarrow> False | Inr s2 \<Rightarrow> trades s2 \<noteq> [])"
    by code_simp
  then obtain s1 s2 where
    o: "open_position ex_cfg ''AAA'' 63839664000 100 ex_bars (init ex_cfg) = Inr s1"
    and o': "positions s1 \<noteq> []" "distinct (map fst (positions s1))"
    and c: "close_position ex_cfg ''AAA'' 2
                 \<lparr>ed_close = 82, ed_timestamp = 63839836800, ed_holding_days = 2,
                  ed_exit_reason = ''end_of_backtest''\<rparr> ex_bars s1 = Inr s2"
    and c': "trades s2 \<noteq> []"
    by (auto split: sum.splits)
  have "case run ex_cfg [''AAA''] ex_data 20 True of Inl e \<Rightarrow> False | Inr s3 \<Rightarrow> trades s3 \<noteq> []"
    by code_simp
  then obtain s3 where r: "run ex_cfg [''AAA''] ex_data 20 True = Inr s3" and r': "trades s3 \<noteq> []"
    by (auto split: sum.splits)
  have f: "map_of (positions (init ex_cfg)) ''AAA'' = None" by (simp add: init_def)
  have k: "conserved (init ex_cfg) = 10000"
    by (simp add: conserved_def init_def ex_cfg_def open_notional_def)
  have i: "initial_capital ex_cfg = 10000" by (simp add: ex_cfg_def)
  from capital_conservation
    [where cfg = ex_cfg and sy = "''AAA''" and date = 63839664000 and price = 100 and df = ex_bars
       and s = "init ex_cfg" and s' = s1] o f k
  have a: "conserved s1 = 10000" by simp
  from capital_conservation
    [where cfg = ex_cfg and sy = "''AAA''" and i = 2 and df = ex_bars and s = s1 and s' = s2
       and det = "\<lparr>ed_close = 82, ed_timestamp = 63839836800, ed_holding_days = 2,
                  ed_exit_reason = ''end_of_backtest''\<rparr>"] c o'(2) a
  have b: "conserved s2 = 10000" by simp
  from capital_conservation
    [where cfg = ex_cfg and symbols = "[''AAA'']" and data = ex_data and ma = 20 and use = True
       and ?s2.0 = s3, THEN conjunct2, THEN conjunct2, THEN conjunct2, rule_format, OF r] i
  have d0: "positions s3 = []"
    "capital s3 + open_notional (positions s3) = 10000 + sum_list (map return_usd (trades s3))"
    by auto
  then have d: "positions s3 = [] \<and> capital s3 = 10000 + sum_list (map return_usd (trades s3))"
    by (simp add: open_notional_def)
  from o o' c c' r r' f a b d show ?thesis by blast
qed

section \<open>Entry selection\<close>

lemma open_position_opens:
  assumes "open_position cfg sy date price df s = Inr s'"
    and "int (length (positions s)) < max_positions (sizer s)"
    and "map_of (positions s) sy = None"
  shows "\<exists>p. positions s' = positions s @ [(sy, p)]" and "sizer s' = sizer s"
proof -
  from assms(1,2) obtain sizing where
    sz: "calculate_position_size (sizer s) (price * (1 + slippage_pct cfg))
           (int (length (positions s))) = Inr sizing" and co: "can_open sizing"
    by (auto simp: open_position_def Let_def ebind_Inr_iff calculate_position_size_def)
  from assms(1) sz co obtain idx where idx: "index_of date df = Some idx"
    by (auto simp: open_position_def Let_def split: option.splits)
  from assms(1) sz co idx show "\<exists>p. positions s' = positions s @ [(sy, p)]"
    by (auto simp: open_position_def Let_def update_fresh[OF assms(3)])
  from assms(1) sz co idx show "sizer s' = sizer s"
    by (auto simp: open_position_def Let_def)
qed

lemma open_each_keys:
  "open_each cfg data opps s = Inr s' \<Longrightarrow>
   distinct (map opp_symbol opps) \<Longrightarrow>
   \<forall>opp \<in> set opps. map_of (positions s) (opp_symbol opp) = None \<Longrightarrow>
   int (length (positions s)) + int (length opps) \<le> max_positions (sizer s) \<Longrightarrow>
   map fst (positions s') = map fst (positions s) @ map opp_symbol opps"
proof (induction opps arbitrary: s)
  case Nil
  then show ?case by simp
next
  case (Cons opp opps)
  from Cons.prems(1) obtain df s1 where
    s1: "open_position cfg (opp_symbol opp) (opp_date opp) (opp_price opp) df s = Inr s1"
    and rest: "open_each cfg data opps s1 = Inr s'"
    by (auto simp: ebind_Inr_iff split: option.splits)
  from Cons.prems(3) have fresh: "map_of (positions s) (opp_symbol opp) = None" by simp
  from Cons.prems(4) have lt: "int (length (positions s)) < max_positions (sizer s)" by simp
  from open_position_opens[OF s1 lt fresh] obtain p where
    ps1: "positions s1 = positions s @ [(opp_symbol opp, p)]" and sz1: "sizer s1 = sizer s"
    by blast
  have fr: "\<forall>opp' \<in> set opps. map_of (positions s1) (opp_symbol opp') = None"
  proof
    fix opp' assume o': "opp' \<in> set opps"
    with Cons.prems(2) have "opp_symbol opp' \<noteq> opp_symbol opp"
      by (metis distinct.simps(2) imageI list.simps(9) set_map)
    moreover from o' Cons.prems(3) have "map_of (positions s) (opp_symbol opp') = None" by simp
    ultimately show "map_of (positions s1) (opp_symbol opp') = None"
      by (simp add: ps1 map_of_None_iff)
  qed
  from Cons.prems(4) have le: "int (length (positions s1)) + int (length opps) \<le> max_positions (sizer s1)"
    by (simp add: ps1 sz1)
  from Cons.prems(2) have "distinct (map opp_symbol opps)" by simp
  from Cons.IH[OF rest this fr le] show ?case by (simp add: ps1)
qed

lemma entry_opportunities_filtered_symbols:
  "map opp_symbol (entry_opportunities_filtered d universe ps signals)
     = map fst (filter (\<lambda>(sy, df). sy \<in> set universe \<and> map_of ps sy = None
                          \<and> filter (\<lambda>r. timestamp r = d \<and> entry_signal r) df \<noteq> []) signals)"
proof (induction signals)
  case Nil
  then show ?case by simp
next
  case (Cons a signals)
  obtain sy df where a: "a = (sy, df)" by (cases a)
  show ?case
  proof (cases "map_of ps sy")
    case None
    with Cons a show ?thesis by (simp split: list.splits)
  next
    case (Some p)
    with Cons a show ?thesis by simp
  qed
qed

lemma entry_opportunities_filtered_fresh:
  "opp \<in> set (entry_opportunities_filtered d universe ps signals) \<Longrightarrow>
     map_of ps (opp_symbol opp) = None"
  by (induction signals) (auto split: list.splits if_splits)

lemma entry_opportunities_filtered_distinct:
  "distinct (map fst signals) \<Longrightarrow>
     distinct (map opp_symbol (entry_opportunities_filtered d universe ps signals))"
  unfolding entry_opportunities_filtered_symbols by (rule distinct_map_filter)

text \<open>What the slice of the sorted candidates is, whatever the candidates are.\<close>

lemma top_k_by_strength:
  fixes cands :: "opportunity list" and k :: nat
  defines "chosen \<equiv> take k (sort_by_strength cands)"
  shows "length chosen = min k (length cands)"
    and "sorted_wrt (\<lambda>a b. opp_strength b \<le> opp_strength a) chosen"
    and "set chosen \<subseteq> set cands"
    and "\<forall>a \<in> set chosen. \<forall>b \<in> set (drop k (sort_by_strength cands)).
           opp_strength b \<le> opp_strength a"
    and "set chosen \<union> set (drop k (sort_by_strength cands)) = set cands"
proof -
  let ?xs = "sort_by_strength cands"
  have srt: "sorted (map (\<lambda>x. - opp_strength x) ?xs)"
    by (simp add: sort_by_strength_def)
  then have sw: "sorted_wrt (\<lambda>a b. opp_strength b \<le> opp_strength a) ?xs"
    by (simp add: sorted_wrt_map)
  show "length chosen = min k (length cands)"
    by (simp add: chosen_def sort_by_strength_def min.commute)
  show "sorted_wrt (\<lambda>a b. opp_strength b \<le> opp_strength a) chosen"
    unfolding chosen_def using sw by (rule sorted_wrt_take)
  show "set chosen \<subseteq> set cands"
    unfolding chosen_def by (rule take_sorted_subset)
  from sw have "sorted_wrt (\<lambda>a b. opp_strength b \<le> opp_strength a) (take k ?xs @ drop k ?xs)"
    by simp
  then show "\<forall>a \<in> set chosen. \<forall>b \<in> set (drop k (sort_by_strength cands)).
           opp_strength b \<le> opp_strength a"
    unfolding chosen_def sorted_wrt_append by blast
  have "set (take k ?xs) \<union> set (drop k ?xs) = set ?xs"
    by (metis append_take_drop_id set_append)
  then show "set chosen \<union> set (drop k (sort_by_strength cands)) = set cands"
    unfolding chosen_def by (simp add: sort_by_strength_def)
qed

text \<open>
  C7. At a step where entries are permitted and slots are free, the candidates are the
  symbols (of the universe, in the realistic engine) that have no open position and an
  entry signal at the step's timestamp, and with \<open>k = max_positions - open_count\<close> the
  engine opens positions for the first \<open>k\<close> candidates in descending order of
  \<open>signal_strength\<close>, appended to the open positions in that order: the chosen are
  \<open>min k n\<close> of the \<open>n\<close> candidates, sorted by descending strength, and no candidate
  left out is stronger than a chosen one. With candidates of strengths 0.9, 0.95 and 0.4
  and one free slot, exactly the symbol of strength 0.95 is opened.
\<close>

theorem entry_selection_ranking:
  "(distinct (map fst signals)
      \<and> int (length (positions s)) < bt_max_positions cfg
      \<and> max_positions (sizer s) = bt_max_positions cfg
      \<and> check_entries_filtered cfg d signals data universe s = Inr s'
    \<longrightarrow> (let cands = entry_opportunities_filtered d universe (positions s) signals;
              k = nat (bt_max_positions cfg - int (length (positions s)));
              chosen = take k (sort_by_strength cands)
          in set (map opp_symbol cands)
               = {sy. sy \<in> set universe \<and> sy \<notin> fst ` set (positions s)
                    \<and> (\<exists>df r. (sy, df) \<in> set signals \<and> r \<in> set df
                          \<and> timestamp r = d \<and> entry_signal r)}
           \<and> map fst (positions s') = map fst (positions s) @ map opp_symbol chosen
           \<and> length chosen = min k (length cands)
           \<and> set chosen \<subseteq> set cands
           \<and> sorted_wrt (\<lambda>a b. opp_strength b \<le> opp_strength a) chosen
           \<and> (\<forall>a \<in> set chosen. \<forall>b \<in> set cands - set chosen.
                  opp_strength b \<le> opp_strength a)))
 \<and> (distinct (map fst signals)
      \<and> int (length (positions s)) < bt_max_positions cfg
      \<and> max_positions (sizer s) = bt_max_positions cfg
      \<and> check_daily_loss_limit cfg d s = Inr (False, s1)
      \<and> check_entries cfg d signals data s = Inr s'
    \<longrightarrow> (let cands = entry_opportunities d (positions s) signals;
              k = nat (bt_max_positions cfg - int (length (positions s)));
              chosen = take k (sort_by_strength cands)
          in set (map opp_symbol cands)
               = {sy. sy \<notin> fst ` set (positions s)
                    \<and> (\<exists>df r. (sy, df) \<in> set signals \<and> r \<in> set df
                          \<and> timestamp r = d \<and> entry_signal r)}
           \<and> map fst (positions s') = map fst (positions s) @ map opp_symbol chosen
           \<and> length chosen = min k (length cands)
           \<and> set chosen \<subseteq> set cands
           \<and> sorted_wrt (\<lambda>a b. opp_strength b \<le> opp_strength a) chosen
           \<and> (\<forall>a \<in> set chosen. \<forall>b \<in> set cands - set chosen.
                  opp_strength b \<le> opp_strength a)))
 \<and> (\<exists>s3. check_entries_filtered ex_cfg1 63839664000 ex_signals3 ex_signals3
             [''AAA'', ''BBB'', ''CCC''] (init ex_cfg1) = Inr s3
        \<and> map opp_strength (entry_opportunities_filtered 63839664000 [''AAA'', ''BBB'', ''CCC'']
                               (positions (init ex_cfg1)) ex_signals3)
             = [9 / 10, 95 / 100, 4 / 10]
        \<and> map fst (positions s3) = [''BBB''])"
proof (intro conjI impI)
  assume h: "distinct (map fst signals)
      \<and> int (length (positions s)) < bt_max_positions cfg
      \<and> max_positions (sizer s) = bt_max_positions cfg
      \<and> check_entries_filtered cfg d signals data universe s = Inr s'"
  define cands where "cands = entry_opportunities_filtered d universe (positions s) signals"
  define k where "k = nat (bt_max_positions cfg - int (length (positions s)))"
  define chosen where "chosen = take k (sort_by_strength cands)"
  from h have hd: "distinct (map fst signals)"
    and hl: "int (length (positions s)) < bt_max_positions cfg"
    and hm: "max_positions (sizer s) = bt_max_positions cfg"
    and hc: "check_entries_filtered cfg d signals data universe s = Inr s'"
    by blast+
  from hc hl have oe: "open_each cfg data chosen s = Inr s'"
    by (simp add: check_entries_filtered_def Let_def chosen_def k_def cands_def)
  have dc: "distinct (map opp_symbol chosen)"
    unfolding chosen_def cands_def
    by (intro take_sorted_distinct entry_opportunities_filtered_distinct hd)
  have fr: "\<forall>opp \<in> set chosen. map_of (positions s) (opp_symbol opp) = None"
    unfolding chosen_def cands_def
    using take_sorted_subset entry_opportunities_filtered_fresh by blast
  have "length chosen \<le> k" by (simp add: chosen_def)
  with hl hm have le: "int (length (positions s)) + int (length chosen) \<le> max_positions (sizer s)"
    by (simp add: k_def)
  have keys: "map fst (positions s') = map fst (positions s) @ map opp_symbol chosen"
    by (rule open_each_keys[OF oe dc fr le])
  have els: "set (map opp_symbol cands)
               = {sy. sy \<in> set universe \<and> sy \<notin> fst ` set (positions s)
                    \<and> (\<exists>df r. (sy, df) \<in> set signals \<and> r \<in> set df
                          \<and> timestamp r = d \<and> entry_signal r)}"
    unfolding cands_def entry_opportunities_filtered_symbols
    by (auto simp: map_of_None_iff filter_empty_conv image_iff) blast+
  have rest: "\<forall>a \<in> set chosen. \<forall>b \<in> set cands - set chosen. opp_strength b \<le> opp_strength a"
    using top_k_by_strength(4,5)[of k cands] unfolding chosen_def by blast
  show "let cands = entry_opportunities_filtered d universe (positions s) signals;
              k = nat (bt_max_positions cfg - int (length (positions s)));
              chosen = take k (sort_by_strength cands)
          in set (map opp_symbol cands)
               = {sy. sy \<in> set universe \<and> sy \<notin> fst ` set (positions s)
                    \<and> (\<exists>df r. (sy, df) \<in> set signals \<and> r \<in> set df
                          \<and> timestamp r = d \<and> entry_signal r)}
           \<and> map fst (positions s') = map fst (positions s) @ map opp_symbol chosen
           \<and> length chosen = min k (length cands)
           \<and> set chosen \<subseteq> set cands
           \<and> sorted_wrt (\<lambda>a b. opp_strength b \<le> opp_strength a) chosen
           \<and> (\<forall>a \<in> set chosen. \<forall>b \<in> set cands - set chosen.
                  opp_strength b \<le> opp_strength a)"
    unfolding Let_def
    using els keys rest top_k_by_strength(1,2,3)[of k cands]
    unfolding chosen_def k_def cands_def by simp
next
  assume h: "distinct (map fst signals)
      \<and> int (length (positions s)) < bt_max_positions cfg
      \<and> max_positions (sizer s) = bt_max_positions cfg
      \<and> check_daily_loss_limit cfg d s = Inr (False, s1)
      \<and> check_entries cfg d signals data s = Inr s'"
  define cands where "cands = entry_opportunities d (positions s) signals"
  define k where "k = nat (bt_max_positions cfg - int (length (positions s)))"
  define chosen where "chosen = take k (sort_by_strength cands)"
  from h have hd: "distinct (map fst signals)"
    and hl: "int (length (positions s)) < bt_max_positions cfg"
    and hm: "max_positions (sizer s) = bt_max_positions cfg"
    and dl: "check_daily_loss_limit cfg d s = Inr (False, s1)"
    and hc: "check_entries cfg d signals data s = Inr s'"
    by blast+
  from hc dl obtain s2 where w: "check_weekly_loss_limit cfg d s1 = Inr s2"
    by (auto simp: check_entries_def ebind_Inr_iff)
  from check_daily_loss_limit_ledger[OF dl] check_weekly_loss_limit_ledger[OF w]
  have same: "positions s2 = positions s" "sizer s2 = sizer s" by simp_all
  from hc hl dl w same have oe: "open_each cfg data chosen s2 = Inr s'"
    by (simp add: check_entries_def Let_def chosen_def k_def cands_def)
  have dc: "distinct (map opp_symbol chosen)"
    unfolding chosen_def cands_def
    by (intro take_sorted_distinct entry_opportunities_distinct hd)
  have fr: "\<forall>opp \<in> set chosen. map_of (positions s2) (opp_symbol opp) = None"
    unfolding chosen_def cands_def same
    using take_sorted_subset entry_opportunities_fresh by blast
  have "length chosen \<le> k" by (simp add: chosen_def)
  with hl hm have le: "int (length (positions s2)) + int (length chosen) \<le> max_positions (sizer s2)"
    by (simp add: k_def same)
  have keys: "map fst (positions s') = map fst (positions s) @ map opp_symbol chosen"
    using open_each_keys[OF oe dc fr le] by (simp add: same)
  have els: "set (map opp_symbol cands)
               = {sy. sy \<notin> fst ` set (positions s)
                    \<and> (\<exists>df r. (sy, df) \<in> set signals \<and> r \<in> set df
                          \<and> timestamp r = d \<and> entry_signal r)}"
    unfolding cands_def entry_opportunities_symbols
    by (auto simp: map_of_None_iff filter_empty_conv image_iff) blast+
  have rest: "\<forall>a \<in> set chosen. \<forall>b \<in> set cands - set chosen. opp_strength b \<le> opp_strength a"
    using top_k_by_strength(4,5)[of k cands] unfolding chosen_def by blast
  show "let cands = entry_opportunities d (positions s) signals;
              k = nat (bt_max_positions cfg - int (length (positions s)));
              chosen = take k (sort_by_strength cands)
          in set (map opp_symbol cands)
               = {sy. sy \<notin> fst ` set (positions s)
                    \<and> (\<exists>df r. (sy, df) \<in> set signals \<and> r \<in> set df
                          \<and> timestamp r = d \<and> entry_signal r)}
           \<and> map fst (positions s') = map fst (positions s) @ map opp_symbol chosen
           \<and> length chosen = min k (length cands)
           \<and> set chosen \<subseteq> set cands
           \<and> sorted_wrt (\<lambda>a b. opp_strength b \<le> opp_strength a) chosen
           \<and> (\<forall>a \<in> set chosen. \<forall>b \<in> set cands - set chosen.
                  opp_strength b \<le> opp_strength a)"
    unfolding Let_def
    using els keys rest top_k_by_strength(1,2,3)[of k cands]
    unfolding chosen_def k_def cands_def by simp
next
  have "case check_entries_filtered ex_cfg1 63839664000 ex_signals3 ex_signals3
             [''AAA'', ''BBB'', ''CCC''] (init ex_cfg1) of
          Inl e \<Rightarrow> False | Inr s3 \<Rightarrow> map fst (positions s3) = [''BBB'']"
    by code_simp
  moreover have "map opp_strength (entry_opportunities_filtered 63839664000 [''AAA'', ''BBB'', ''CCC'']
                               (positions (init ex_cfg1)) ex_signals3)
             = [9 / 10, 95 / 100, 4 / 10]"
    by (simp add: ex_signals3_def init_def)
  ultimately show "\<exists>s3. check_entries_filtered ex_cfg1 63839664000 ex_signals3 ex_signals3
             [''AAA'', ''BBB'', ''CCC''] (init ex_cfg1) = Inr s3
        \<and> map opp_strength (entry_opportunities_filtered 63839664000 [''AAA'', ''BBB'', ''CCC'']
                               (positions (init ex_cfg1)) ex_signals3)
             = [9 / 10, 95 / 100, 4 / 10]
        \<and> map fst (positions s3) = [''BBB'']"
    by (auto split: sum.splits)
qed

theorem entry_selection_ranking_witness:
  "(\<exists>s3. check_entries_filtered ex_cfg1 63839664000 ex_signals3 ex_signals3
             [''AAA'', ''BBB'', ''CCC''] (init ex_cfg1) = Inr s3
        \<and> map fst (positions s3) = [''BBB''])
 \<and> (\<exists>s1 s4. check_daily_loss_limit ex_cfg1 63839664000 (init ex_cfg1) = Inr (False, s1)
        \<and> check_entries ex_cfg1 63839664000 ex_signals3 ex_signals3 (init ex_cfg1) = Inr s4
        \<and> map fst (positions s4) = [''BBB''])
 \<and> distinct (map fst ex_signals3)
 \<and> int (length (positions (init ex_cfg1))) < bt_max_positions ex_cfg1
 \<and> max_positions (sizer (init ex_cfg1)) = bt_max_positions ex_cfg1"
proof -
  have h: "distinct (map fst ex_signals3)"
    "int (length (positions (init ex_cfg1))) < bt_max_positions ex_cfg1"
    "max_positions (sizer (init ex_cfg1)) = bt_max_positions ex_cfg1"
    by (simp_all add: ex_signals3_def init_def ex_cfg1_def ex_cfg_def)
  have k: "nat (bt_max_positions ex_cfg1 - int (length (positions (init ex_cfg1)))) = 1"
    by (simp add: init_def ex_cfg1_def ex_cfg_def)
  have ch: "map opp_symbol (take 1 (sort_by_strength
              (entry_opportunities_filtered 63839664000 [''AAA'', ''BBB'', ''CCC'']
                 (positions (init ex_cfg1)) ex_signals3))) = [''BBB'']"
    by code_simp
  have ch': "map opp_symbol (take 1 (sort_by_strength
              (entry_opportunities 63839664000 (positions (init ex_cfg1)) ex_signals3)))
             = [''BBB'']"
    by code_simp
  have "case check_entries_filtered ex_cfg1 63839664000 ex_signals3 ex_signals3
             [''AAA'', ''BBB'', ''CCC''] (init ex_cfg1) of Inl e \<Rightarrow> False | Inr s3 \<Rightarrow> True"
    by code_simp
  then obtain s3 where r: "check_entries_filtered ex_cfg1 63839664000 ex_signals3 ex_signals3
             [''AAA'', ''BBB'', ''CCC''] (init ex_cfg1) = Inr s3"
    by (auto split: sum.splits)
  from entry_selection_ranking
    [where signals = ex_signals3 and s = "init ex_cfg1" and cfg = ex_cfg1 and d = 63839664000
       and data = ex_signals3 and universe = "[''AAA'', ''BBB'', ''CCC'']" and s' = s3,
     THEN conjunct1, rule_format, OF conjI[OF h(1) conjI[OF h(2) conjI[OF h(3) r]]]]
  have a: "map fst (positions s3) = [''BBB'']"
    unfolding Let_def k ch by (simp add: init_def)
  have dl: "check_daily_loss_limit ex_cfg1 63839664000 (init ex_cfg1)
      = Inr (False, (init ex_cfg1)\<lparr>current_date := Some 63839664000,
                daily_start_capital := 10000, daily_trading_stopped := False\<rparr>)"
    by (simp add: check_daily_loss_limit_def init_def ex_cfg1_def ex_cfg_def fdiv_def)
  have "case check_entries ex_cfg1 63839664000 ex_signals3 ex_signals3 (init ex_cfg1) of
          Inl e \<Rightarrow> False | Inr s4 \<Rightarrow> True"
    by code_simp
  then obtain s4 where r4: "check_entries ex_cfg1 63839664000 ex_signals3 ex_signals3 (init ex_cfg1) = Inr s4"
    by (auto split: sum.splits)
  from entry_selection_ranking
    [where signals = ex_signals3 and s = "init ex_cfg1" and cfg = ex_cfg1 and d = 63839664000
       and data = ex_signals3 and s' = s4,
     THEN conjunct2, THEN conjunct1, rule_format, OF conjI[OF h(1) conjI[OF h(2) conjI[OF h(3) conjI[OF dl r4]]]]]
  have b: "map fst (positions s4) = [''BBB'']"
    unfolding Let_def k ch' by (simp add: init_def)
  have e1: "\<exists>s3. check_entries_filtered ex_cfg1 63839664000 ex_signals3 ex_signals3
             [''AAA'', ''BBB'', ''CCC''] (init ex_cfg1) = Inr s3
        \<and> map fst (positions s3) = [''BBB'']"
    by (rule exI[of _ s3]) (rule conjI[OF r a])
  have e2: "\<exists>s1 s4. check_daily_loss_limit ex_cfg1 63839664000 (init ex_cfg1) = Inr (False, s1)
        \<and> check_entries ex_cfg1 63839664000 ex_signals3 ex_signals3 (init ex_cfg1) = Inr s4
        \<and> map fst (positions s4) = [''BBB'']"
    by (intro exI conjI) (rule dl, rule r4, rule b)
  show ?thesis by (intro conjI e1 e2 h)
qed

section \<open>Trades made by the closing loop\<close>

lemma close_position_trade:
  assumes "close_position cfg sy i det df s = Inr s'"
  shows "\<exists>p t. map_of (positions s) sy = Some p \<and> trades s' = trades s @ [t]
      \<and> t_symbol t = sy
      \<and> exit_reason t = ed_exit_reason det
      \<and> exit_price t = ed_close det * (1 - slippage_pct cfg)
      \<and> exit_date t = ed_timestamp det
      \<and> t_entry_price t = entry_price p \<and> t_num_contracts t = num_contracts p
      \<and> t_peak_price t = peak_price p
      \<and> return_usd t = num_contracts p * (exit_price t - entry_price p)
                        - num_contracts p * exit_price t * commission_pct cfg
      \<and> max_adverse_excursion t
          = map_option (\<lambda>m. (m - entry_price p) / entry_price p)
              (list_min (map low (iloc_slice (entry_index p) i df)))
      \<and> entry_price p \<noteq> 0
      \<and> positions s' = AList.delete sy (positions s)"
proof -
  from close_position_cases[OF assms] obtain p where
    p: "map_of (positions s) sy = Some p" "entry_price p \<noteq> 0" and
    s': "s' = s\<lparr>capital := capital s + (num_contracts p * (ed_close det * (1 - slippage_pct cfg))
                - num_contracts p * (ed_close det * (1 - slippage_pct cfg)) * commission_pct cfg),
            trades := trades s @
              [\<lparr>t_symbol = sy, t_entry_date = entry_date p, t_entry_price = entry_price p,
                exit_date = ed_timestamp det,
                exit_price = ed_close det * (1 - slippage_pct cfg),
                t_position_size_usd = position_size_usd p,
                t_num_contracts = num_contracts p,
                return_pct = (ed_close det * (1 - slippage_pct cfg) - entry_price p) / entry_price p,
                return_usd = num_contracts p * (ed_close det * (1 - slippage_pct cfg) - entry_price p)
                   - num_contracts p * (ed_close det * (1 - slippage_pct cfg)) * commission_pct cfg,
                holding_days = ed_holding_days det,
                exit_reason = ed_exit_reason det,
                t_peak_price = peak_price p,
                max_adverse_excursion =
                  map_option (\<lambda>m. (m - entry_price p) / entry_price p)
                    (list_min (map low (iloc_slice (entry_index p) i df)))\<rparr>],
            positions := AList.delete sy (positions s),
            sizer := update_account_size (sizer s)
               (capital s + (num_contracts p * (ed_close det * (1 - slippage_pct cfg))
                - num_contracts p * (ed_close det * (1 - slippage_pct cfg)) * commission_pct cfg))\<rparr>"
    by blast
  show ?thesis
    apply (rule exI[of _ p])
    apply (rule exI[of _ "last (trades s')"])
    apply (simp add: s' p)
    done
qed

lemma filter_symbol_empty: "sy \<notin> f ` set xs \<Longrightarrow> filter (\<lambda>t. f t = sy) xs = []"
  by (induction xs) auto

lemma close_each_symbols:
  "close_each cfg data cl s = Inr s' \<Longrightarrow>
     \<exists>ts. trades s' = trades s @ ts \<and> map t_symbol ts = map fst cl"
proof (induction cl arbitrary: s)
  case Nil
  then show ?case by simp
next
  case (Cons c cl)
  obtain sy i det where c: "c = (sy, i, det)" by (cases c)
  from Cons.prems c obtain df s1 where
    s1: "close_position cfg sy i det df s = Inr s1" and rest: "close_each cfg data cl s1 = Inr s'"
    by (auto simp: ebind_Inr_iff split: option.splits)
  from close_position_trade[OF s1] obtain t where t: "trades s1 = trades s @ [t]" "t_symbol t = sy"
    by blast
  from Cons.IH[OF rest] obtain ts where "trades s' = trades s1 @ ts" "map t_symbol ts = map fst cl"
    by blast
  with t c show ?case by (intro exI[of _ "t # ts"]) simp
qed

lemma close_each_trade_for:
  "close_each cfg data cl s = Inr s' \<Longrightarrow> distinct (map fst cl) \<Longrightarrow>
   (sy, i, det) \<in> set cl \<Longrightarrow> map_of (positions s) sy = Some p \<Longrightarrow>
   \<exists>t. filter (\<lambda>t. t_symbol t = sy) (drop (length (trades s)) (trades s')) = [t]
      \<and> exit_reason t = ed_exit_reason det
      \<and> exit_price t = ed_close det * (1 - slippage_pct cfg)
      \<and> exit_date t = ed_timestamp det
      \<and> t_entry_price t = entry_price p \<and> t_num_contracts t = num_contracts p
      \<and> return_usd t = num_contracts p * (exit_price t - entry_price p)
                        - num_contracts p * exit_price t * commission_pct cfg
      \<and> sy \<notin> fst ` set (positions s')"
proof (induction cl arbitrary: s)
  case Nil
  then show ?case by simp
next
  case (Cons c cl)
  obtain sy2 i2 det2 where c: "c = (sy2, i2, det2)" by (cases c)
  from Cons.prems(1) c obtain df s1 where
    s1: "close_position cfg sy2 i2 det2 df s = Inr s1"
    and rest: "close_each cfg data cl s1 = Inr s'"
    by (auto simp: ebind_Inr_iff split: option.splits)
  from close_position_trade[OF s1] obtain p2 t where
    p2: "map_of (positions s) sy2 = Some p2"
    and t: "trades s1 = trades s @ [t]" "t_symbol t = sy2"
        "exit_reason t = ed_exit_reason det2"
        "exit_price t = ed_close det2 * (1 - slippage_pct cfg)"
        "exit_date t = ed_timestamp det2"
        "t_entry_price t = entry_price p2" "t_num_contracts t = num_contracts p2"
        "return_usd t = num_contracts p2 * (exit_price t - entry_price p2)
                        - num_contracts p2 * exit_price t * commission_pct cfg"
    and ps1: "positions s1 = AList.delete sy2 (positions s)"
    by blast
  from close_each_symbols[OF rest] obtain ts where
    ts: "trades s' = trades s1 @ ts" "map t_symbol ts = map fst cl" by blast
  have dr: "drop (length (trades s)) (trades s') = t # ts" by (simp add: ts t)
  show ?case
  proof (cases "sy2 = sy")
    case True
    with Cons.prems(2,3) c have same: "i2 = i" "det2 = det" and notin: "sy \<notin> fst ` set cl"
      by (auto simp: image_iff) 
    from notin ts(2) have "sy \<notin> t_symbol ` set ts"
      by (metis image_set)
    then have "filter (\<lambda>t. t_symbol t = sy) ts = []"
      by (rule filter_symbol_empty)
    moreover have "sy \<notin> fst ` set (positions s')"
    proof -
      have "sy \<notin> fst ` set (positions s1)" unfolding ps1 True[symmetric]
        by (rule AList.delete_notin_dom)
      with close_each_frame[OF rest] show ?thesis by blast
    qed
    ultimately show ?thesis
      using t p2 True same Cons.prems(4) dr by (intro exI[of _ t]) simp
  next
    case False
    with Cons.prems(3) c have mem: "(sy, i, det) \<in> set cl" by auto
    from False Cons.prems(4) have p1: "map_of (positions s1) sy = Some p"
      by (simp add: ps1 AList.delete_conv')
    from Cons.prems(2) have "distinct (map fst cl)" by simp
    from Cons.IH[OF rest this mem p1] obtain t' where
      t': "filter (\<lambda>t. t_symbol t = sy) (drop (length (trades s1)) (trades s')) = [t']"
      "exit_reason t' = ed_exit_reason det"
      "exit_price t' = ed_close det * (1 - slippage_pct cfg)"
      "exit_date t' = ed_timestamp det"
      "t_entry_price t' = entry_price p" "t_num_contracts t' = num_contracts p"
      "return_usd t' = num_contracts p * (exit_price t' - entry_price p)
                        - num_contracts p * exit_price t' * commission_pct cfg"
      "sy \<notin> fst ` set (positions s')"
      by blast
    have "drop (length (trades s1)) (trades s') = ts" by (simp add: ts)
    with t'(1) False t(2) dr
    have "filter (\<lambda>t. t_symbol t = sy) (drop (length (trades s)) (trades s')) = [t']"
      by simp
    with t' show ?thesis by blast
  qed
qed

lemma universe_exits_symbols:
  "map fst (universe_exits d universe data ps)
     = map fst (filter (\<lambda>(sy, p). sy \<notin> set universe
                          \<and> (\<exists>df i. map_of data sy = Some df \<and> index_of d df = Some i)) ps)"
proof (induction ps)
  case Nil
  then show ?case by simp
next
  case (Cons a ps)
  obtain sy p where a: "a = (sy, p)" by (cases a)
  with Cons show ?case by (simp split: option.splits)
qed

lemma universe_exits_distinct:
  "distinct (map fst ps) \<Longrightarrow> distinct (map fst (universe_exits d universe data ps))"
  unfolding universe_exits_symbols by (rule distinct_map_filter)

lemma universe_exits_mem:
  "(sy, p) \<in> set ps \<Longrightarrow> sy \<notin> set universe \<Longrightarrow> map_of data sy = Some df \<Longrightarrow>
   index_of d df = Some i \<Longrightarrow>
   (sy, i, \<lparr>ed_close = close (df ! i), ed_timestamp = d,
            ed_holding_days = int i - int (entry_index p),
            ed_exit_reason = ''removed_from_universe''\<rparr>)
     \<in> set (universe_exits d universe data ps)"
  by (induction ps) (auto split: option.splits)

lemma scan_exits_cl_keys:
  "scan_exits cfg d data ma use ps = Inr (ps', cl) \<Longrightarrow> c \<in> set cl \<Longrightarrow> fst c \<in> fst ` set ps"
proof (induction ps arbitrary: ps' cl)
  case Nil
  then show ?case by simp
next
  case (Cons a ps)
  obtain sy p where a: "a = (sy, p)" by (cases a)
  from Cons.prems(1) a obtain ps2 cl2 where
    r: "scan_exits cfg d data ma use ps = Inr (ps2, cl2)"
    and c: "cl = cl2 \<or> (\<exists>i det. cl = (sy, i, det) # cl2)"
    by (auto simp: ebind_Inr_iff Let_def split: option.splits if_splits)
  from c Cons.prems(2) have "fst c = sy \<or> c \<in> set cl2" by auto
  then show ?case
  proof
    assume "fst c = sy"
    then show ?thesis by (simp add: a)
  next
    assume "c \<in> set cl2"
    from Cons.IH[OF r this] show ?thesis by simp
  qed
qed

lemma check_exits_trades:
  assumes "check_exits cfg d data ma use s = Inr s'"
  shows "\<exists>ts. trades s' = trades s @ ts \<and> t_symbol ` set ts \<subseteq> fst ` set (positions s)"
proof -
  from assms obtain ps' cl where
    sc: "scan_exits cfg d data ma use (positions s) = Inr (ps', cl)"
    and ce: "close_each cfg data cl (s\<lparr>positions := ps'\<rparr>) = Inr s'"
    by (auto simp: check_exits_def ebind_Inr_iff)
  from close_each_symbols[OF ce] obtain ts where
    ts: "trades s' = trades s @ ts" "map t_symbol ts = map fst cl" by auto
  from ts(2) have "t_symbol ` set ts = fst ` set cl" by (metis image_set)
  moreover have "fst ` set cl \<subseteq> fst ` set (positions s)"
    using scan_exits_cl_keys[OF sc] by blast
  ultimately show ?thesis using ts(1) by blast
qed

lemma open_position_trades: "open_position cfg sy date price df s = Inr s' \<Longrightarrow> trades s' = trades s"
  using open_position_cases[of cfg sy date price df s s'] by auto

lemma open_each_frame:
  "open_each cfg data opps s = Inr s' \<Longrightarrow>
     trades s' = trades s
   \<and> fst ` set (positions s') \<subseteq> fst ` set (positions s) \<union> opp_symbol ` set opps"
proof (induction opps arbitrary: s)
  case Nil
  then show ?case by simp
next
  case (Cons opp opps)
  from Cons.prems(1) obtain df s1 where
    s1: "open_position cfg (opp_symbol opp) (opp_date opp) (opp_price opp) df s = Inr s1"
    and rest: "open_each cfg data opps s1 = Inr s'"
    by (auto simp: ebind_Inr_iff split: option.splits)
  from Cons.IH[OF rest] have
    i1: "trades s' = trades s1"
    and i2: "fst ` set (positions s') \<subseteq> fst ` set (positions s1) \<union> opp_symbol ` set opps"
    by simp_all
  from i2 open_position_keys[OF s1]
  have "fst ` set (positions s') \<subseteq> fst ` set (positions s) \<union> opp_symbol ` set (opp # opps)"
    by auto
  with i1 open_position_trades[OF s1] show ?case by simp
qed

lemma entry_opportunities_filtered_universe:
  "opp \<in> set (entry_opportunities_filtered d universe ps signals) \<Longrightarrow>
     opp_symbol opp \<in> set universe"
  by (induction signals) (auto split: list.splits if_splits)

lemma check_entries_filtered_frame:
  assumes "check_entries_filtered cfg d signals data universe s = Inr s'"
  shows "trades s' = trades s"
    and "fst ` set (positions s') \<subseteq> fst ` set (positions s) \<union> set universe"
proof -
  let ?opps = "take (nat (bt_max_positions cfg - int (length (positions s))))
                 (sort_by_strength (entry_opportunities_filtered d universe (positions s) signals))"
  from assms have "s' = s \<or> open_each cfg data ?opps s = Inr s'"
    by (auto simp: check_entries_filtered_def Let_def split: if_splits)
  moreover have u: "opp_symbol ` set ?opps \<subseteq> set universe"
    using take_sorted_subset entry_opportunities_filtered_universe by blast
  ultimately have r: "trades s' = trades s
     \<and> fst ` set (positions s') \<subseteq> fst ` set (positions s) \<union> opp_symbol ` set ?opps"
    using open_each_frame[of cfg data ?opps s s'] by blast
  from r show "trades s' = trades s" by simp
  from r u show "fst ` set (positions s') \<subseteq> fst ` set (positions s) \<union> set universe"
    by blast
qed

section \<open>Universe exits\<close>

lemma ex_held_reached:
  "open_position ex_cfg ''AAA'' 63839664000 100 ex_bars (init ex_cfg) = Inr ex_held"
  by (simp add: open_position_def calculate_position_size_def ex_cfg_def init_def ex_bars_def
        ex_held_def ebind_def fdiv_def Let_def)

text \<open>
  C4 (amended). On a step at which an open position's symbol is absent from the
  effective universe and the symbol has a bar at the step's timestamp, that position is
  force-closed with exit reason \<open>removed_from_universe\<close> at the step's close price
  reduced by slippage, \<open>close * (1 - slippage_pct)\<close>, as every exit is; the exit
  commission applies; and the step records no other trade for that symbol, since the
  universe check runs before the signal-exit check and the symbol cannot re-enter.
\<close>

theorem universe_exit_forced:
  assumes "map_of (positions s) sy = Some p" and "distinct (map fst (positions s))"
    and "sy \<notin> set universe"
    and "map_of data sy = Some df" and "index_of d df = Some i"
    and "realistic_step cfg signals data ma use universe d s = Inr s'"
  shows "\<exists>t. filter (\<lambda>t. t_symbol t = sy) (drop (length (trades s)) (trades s')) = [t]
      \<and> exit_reason t = ''removed_from_universe''
      \<and> exit_date t = d
      \<and> exit_price t = close (df ! i) * (1 - slippage_pct cfg)
      \<and> t_entry_price t = entry_price p \<and> t_num_contracts t = num_contracts p
      \<and> return_usd t = num_contracts p * (exit_price t - entry_price p)
                        - num_contracts p * exit_price t * commission_pct cfg
      \<and> sy \<notin> fst ` set (positions s')"
proof -
  from assms(6) obtain s1 s2 s3 where
    a: "check_universe_exits cfg d universe data s = Inr s1"
    and b: "check_exits cfg d data ma use s1 = Inr s2"
    and c: "check_entries_filtered cfg d signals data universe s2 = Inr s3"
    and e: "s' = update_equity d data s3"
    by (auto simp: realistic_step_def ebind_Inr_iff)
  let ?det = "\<lparr>ed_close = close (df ! i), ed_timestamp = d,
               ed_holding_days = int i - int (entry_index p),
               ed_exit_reason = ''removed_from_universe''\<rparr>"
  from assms(1) have "(sy, p) \<in> set (positions s)" by (rule map_of_SomeD)
  from universe_exits_mem[OF this assms(3,4,5)]
  have mem: "(sy, i, ?det) \<in> set (universe_exits d universe data (positions s))" .
  from a have ce: "close_each cfg data (universe_exits d universe data (positions s)) s = Inr s1"
    by (simp add: check_universe_exits_def)
  from close_each_trade_for[OF ce universe_exits_distinct[OF assms(2)] mem assms(1)]
  obtain t where
    t: "filter (\<lambda>t. t_symbol t = sy) (drop (length (trades s)) (trades s1)) = [t]"
      "exit_reason t = ''removed_from_universe''"
      "exit_price t = close (df ! i) * (1 - slippage_pct cfg)"
      "exit_date t = d"
      "t_entry_price t = entry_price p" "t_num_contracts t = num_contracts p"
      "return_usd t = num_contracts p * (exit_price t - entry_price p)
                        - num_contracts p * exit_price t * commission_pct cfg"
      and n1: "sy \<notin> fst ` set (positions s1)"
    by (simp (no_asm_use)) blast
  from close_each_symbols[OF ce] obtain ts1 where ts1: "trades s1 = trades s @ ts1" by blast
  from check_exits_trades[OF b] obtain ts2 where
    ts2: "trades s2 = trades s1 @ ts2" "t_symbol ` set ts2 \<subseteq> fst ` set (positions s1)" by blast
  from ts2(2) n1 have "sy \<notin> t_symbol ` set ts2" by blast
  then have f2: "filter (\<lambda>t. t_symbol t = sy) ts2 = []" by (rule filter_symbol_empty)
  from check_exits_frame(2)[OF b] n1 have n2: "sy \<notin> fst ` set (positions s2)" by blast
  from check_entries_filtered_frame[OF c] n2 assms(3)
  have tr3: "trades s3 = trades s2" and n3: "sy \<notin> fst ` set (positions s3)" by blast+
  have tr': "trades s' = trades s @ ts1 @ ts2" and ps': "positions s' = positions s3"
    by (simp_all add: e update_equity_def Let_def tr3 ts2 ts1)
  from t(1) have "filter (\<lambda>t. t_symbol t = sy) ts1 = [t]" by (simp add: ts1)
  with f2 have "filter (\<lambda>t. t_symbol t = sy) (drop (length (trades s)) (trades s')) = [t]"
    by (simp add: tr')
  with t n3 ps' show ?thesis by (intro exI[of _ t]) simp
qed

theorem universe_exit_forced_witness:
  "\<exists>s' t. realistic_step ex_cfg ex_data ex_data 20 True [] 63839750400 ex_held = Inr s'
      \<and> map_of (positions ex_held) ''AAA'' \<noteq> None
      \<and> index_of 63839750400 ex_bars = Some 1
      \<and> filter (\<lambda>t. t_symbol t = ''AAA'') (drop (length (trades ex_held)) (trades s')) = [t]
      \<and> exit_reason t = ''removed_from_universe''
      \<and> exit_price t = 105 * (1 - 1 / 1000)
      \<and> ''AAA'' \<notin> fst ` set (positions s')"
proof -
  let ?p = "\<lparr>symbol = ''AAA'', entry_date = 63839664000, entry_index = 0,
             entry_price = 1001 / 10, position_size_usd = 999,
             num_contracts = 10000 / 1001, peak_price = 1001 / 10,
             peak_date = 63839664000\<rparr>"
  have p: "map_of (positions ex_held) ''AAA'' = Some ?p" by (simp add: ex_held_def)
  have dk: "distinct (map fst (positions ex_held))" by (simp add: ex_held_def)
  have u: "''AAA'' \<notin> set []" by simp
  have df: "map_of ex_data ''AAA'' = Some ex_bars" by (simp add: ex_data_def)
  have ix: "index_of 63839750400 ex_bars = Some 1" by (simp add: ex_bars_def)
  have "case realistic_step ex_cfg ex_data ex_data 20 True [] 63839750400 ex_held of
          Inl e \<Rightarrow> False | Inr s' \<Rightarrow> True"
    by code_simp
  then obtain s' where r: "realistic_step ex_cfg ex_data ex_data 20 True [] 63839750400 ex_held = Inr s'"
    by (auto split: sum.splits)
  from universe_exit_forced[OF p dk u df ix r] obtain t where
    t: "filter (\<lambda>t. t_symbol t = ''AAA'') (drop (length (trades ex_held)) (trades s')) = [t]"
       "exit_reason t = ''removed_from_universe''"
       "exit_price t = close (ex_bars ! 1) * (1 - slippage_pct ex_cfg)"
       "''AAA'' \<notin> fst ` set (positions s')"
    by blast
  have "close (ex_bars ! 1) * (1 - slippage_pct ex_cfg) = 105 * (1 - 1 / 1000)"
    by (simp add: ex_bars_def ex_cfg_def)
  with t(3) have t3: "exit_price t = 105 * (1 - 1 / 1000)" by simp
  have p': "map_of (positions ex_held) ''AAA'' \<noteq> None" using p by simp
  show ?thesis
    by (intro exI[of _ s'] exI[of _ t] conjI r p' ix t(1) t(2) t3 t(4))
qed

text \<open>
  As stated, with the exit at the step's close price and no slippage, C4 fails: with
  \<open>slippage_pct = 0.001\<close> a position removed from the universe on a bar closing at 105
  is closed at 104.895.
\<close>

theorem universe_exit_without_slippage_counterexample:
  "\<not> isl (check_universe_exits ex_cfg 63839750400 [] ex_data ex_held)
 \<and> map exit_reason (trades (projr (check_universe_exits ex_cfg 63839750400 [] ex_data ex_held)))
     = [''removed_from_universe'']
 \<and> close (ex_bars ! 1) = 105
 \<and> slippage_pct ex_cfg = 1 / 1000
 \<and> map exit_price (trades (projr (check_universe_exits ex_cfg 63839750400 [] ex_data ex_held)))
     = [104895 / 1000]
 \<and> map exit_price (trades (projr (check_universe_exits ex_cfg 63839750400 [] ex_data ex_held)))
     \<noteq> [close (ex_bars ! 1)]"
  by code_simp

section \<open>Positions and trades on well-formed data\<close>

lemma index_of_Some:
  "index_of d df = Some i \<Longrightarrow> i < length df \<and> timestamp (df ! i) = d"
proof (induction df arbitrary: i)
  case Nil
  then show ?case by simp
next
  case (Cons r rs)
  show ?case
  proof (cases "timestamp r = d")
    case True
    with Cons.prems show ?thesis by simp
  next
    case False
    with Cons.prems obtain j where j: "index_of d rs = Some j" "i = Suc j" by auto
    from Cons.IH[OF j(1)] j(2) show ?thesis by simp
  qed
qed

lemma sorted_index_mono:
  assumes "sorted_wrt (<) (map timestamp df)" "i < length df" "j < length df"
    and "timestamp (df ! i) \<le> timestamp (df ! j)"
  shows "i \<le> j"
proof (rule ccontr)
  assume "\<not> i \<le> j"
  then have "j < i" by simp
  with assms(1,2) have "map timestamp df ! j < map timestamp df ! i"
    by (intro sorted_wrt_nth_less) simp_all
  with assms(2,3,4) show False by simp
qed

lemma sorted_row_unique:
  assumes "sorted_wrt (<) (map timestamp df)" "i < length df" "r \<in> set df"
    and "timestamp r = timestamp (df ! i)"
  shows "r = df ! i"
proof -
  from assms(3) obtain j where j: "j < length df" "df ! j = r" by (auto simp: in_set_conv_nth)
  with assms have "i \<le> j" "j \<le> i" by (auto intro: sorted_index_mono)
  with j show ?thesis by simp
qed

lemma mae_nonpositive:
  assumes "good_frame df" "ei \<le> xi" "xi < length df" "0 \<le> slip"
    and "ep = close (df ! ei) * (1 + slip)"
  shows "\<exists>m. map_option (\<lambda>m. (m - ep) / ep) (list_min (map low (iloc_slice ei xi df))) = Some m
           \<and> m \<le> 0"
proof -
  let ?lows = "map low (iloc_slice ei xi df)"
  from assms(2,3) have ne: "?lows \<noteq> []" using iloc_slice_nonempty by auto
  then have lm: "list_min ?lows = Some (Min (set ?lows))" by (rule list_min_Min)
  from assms(2,3) have ei: "ei < length df" by simp
  then have r: "df ! ei \<in> set df" by simp
  with assms(1) have c: "0 < close (df ! ei)" "low (df ! ei) \<le> close (df ! ei)"
    by (auto simp: good_frame_def)
  from assms(2,3) have "df ! ei \<in> set (iloc_slice ei xi df)"
    unfolding set_iloc_slice[OF assms(2,3)] by blast
  then have "low (df ! ei) \<in> set ?lows" by simp
  then have "Min (set ?lows) \<le> low (df ! ei)" by simp
  moreover from c(1) assms(4) have "close (df ! ei) \<le> close (df ! ei) * (1 + slip)"
    by (simp add: mult_le_cancel_left1)
  ultimately have le: "Min (set ?lows) \<le> ep" using c(2) assms(5) by simp
  from c(1) assms(4,5) have pos: "0 < ep" by (simp add: mult_pos_pos)
  from le pos have "(Min (set ?lows) - ep) / ep \<le> 0"
    by (simp add: divide_le_0_iff)
  with lm show ?thesis by simp
qed

lemma position_ok_mono: "position_ok cfg data d sy p \<Longrightarrow> d \<le> d' \<Longrightarrow> position_ok cfg data d' sy p"
  by (auto simp: position_ok_def)

lemma book_ok_mono: "book_ok cfg data d s \<Longrightarrow> d \<le> d' \<Longrightarrow> book_ok cfg data d' s"
  unfolding book_ok_def using position_ok_mono by blast

lemma close_position_ok:
  assumes "close_position cfg sy i det df s = Inr s'" and "book_ok cfg data d s"
    and "good_data data" and "0 \<le> slippage_pct cfg"
    and "map_of data sy = Some df" and "i < length df"
    and "\<And>p. map_of (positions s) sy = Some p \<Longrightarrow> entry_index p \<le> i"
  shows "book_ok cfg data d s'"
proof -
  from close_position_trade[OF assms(1)] obtain p t where
    p: "map_of (positions s) sy = Some p" and tr: "trades s' = trades s @ [t]"
    and t: "t_entry_price t = entry_price p" "t_peak_price t = peak_price p"
       "max_adverse_excursion t
          = map_option (\<lambda>m. (m - entry_price p) / entry_price p)
              (list_min (map low (iloc_slice (entry_index p) i df)))"
    and ps: "positions s' = AList.delete sy (positions s)"
    by blast
  from p have "(sy, p) \<in> set (positions s)" by (rule map_of_SomeD)
  with assms(2) have pk: "position_ok cfg data d sy p" by (auto simp: book_ok_def)
  with assms(5) have ep: "entry_price p = close (df ! entry_index p) * (1 + slippage_pct cfg)"
    and pe: "entry_price p \<le> peak_price p"
    by (auto simp: position_ok_def)
  from assms(3,5) have gf: "good_frame df" by (simp add: good_data_def)
  from mae_nonpositive[OF gf assms(7)[OF p] assms(6) assms(4) ep] t pe
  have "trade_ok t" by (simp add: trade_ok_def)
  moreover have "set (positions s') \<subseteq> set (positions s)"
    unfolding ps by (auto simp: AList.delete_eq)
  ultimately show ?thesis using assms(2) tr by (auto simp: book_ok_def)
qed

lemma close_each_ok:
  "close_each cfg data cl s = Inr s' \<Longrightarrow> book_ok cfg data d s \<Longrightarrow>
   good_data data \<Longrightarrow> 0 \<le> slippage_pct cfg \<Longrightarrow>
   \<forall>(sy, i, det) \<in> set cl. \<exists>df. map_of data sy = Some df \<and> index_of d df = Some i \<Longrightarrow>
   book_ok cfg data d s'"
proof (induction cl arbitrary: s)
  case Nil
  then show ?case by simp
next
  case (Cons c cl)
  obtain sy i det where c: "c = (sy, i, det)" by (cases c)
  from Cons.prems(5) c obtain df where df: "map_of data sy = Some df" "index_of d df = Some i"
    by auto
  from Cons.prems(1) c df obtain s1 where
    s1: "close_position cfg sy i det df s = Inr s1" and rest: "close_each cfg data cl s1 = Inr s'"
    by (auto simp: ebind_Inr_iff)
  from index_of_Some[OF df(2)] have i: "i < length df" "timestamp (df ! i) = d" by simp_all
  from Cons.prems(3) df(1) have gf: "good_frame df" by (simp add: good_data_def)
  have le: "entry_index p \<le> i" if "map_of (positions s) sy = Some p" for p
  proof -
    from that have "(sy, p) \<in> set (positions s)" by (rule map_of_SomeD)
    with Cons.prems(2) have "position_ok cfg data d sy p" by (auto simp: book_ok_def)
    with df(1) have "entry_index p < length df" "timestamp (df ! entry_index p) \<le> d"
      by (auto simp: position_ok_def)
    with gf i show ?thesis by (auto simp: good_frame_def intro: sorted_index_mono)
  qed
  have "book_ok cfg data d s1"
    by (rule close_position_ok[OF s1 Cons.prems(2,3,4) df(1) i(1) le])
  from Cons.IH[OF rest this Cons.prems(3,4)] Cons.prems(5) show ?case by simp
qed

lemma update_peak_ok:
  "position_ok cfg data d sy p \<Longrightarrow> position_ok cfg data d sy (update_peak p price d')"
  by (auto simp: position_ok_def update_peak_def)

lemma scan_exits_ok:
  "scan_exits cfg d data ma use ps = Inr (ps', cl) \<Longrightarrow>
   \<forall>(sy, p) \<in> set ps. position_ok cfg data d sy p \<Longrightarrow>
     (\<forall>(sy, p) \<in> set ps'. position_ok cfg data d sy p)
   \<and> (\<forall>(sy, i, det) \<in> set cl. \<exists>df. map_of data sy = Some df \<and> index_of d df = Some i)"
proof (induction ps arbitrary: ps' cl)
  case Nil
  then show ?case by simp
next
  case (Cons a ps)
  obtain sy p where a: "a = (sy, p)" by (cases a)
  from Cons.prems(2) a have pk: "position_ok cfg data d sy p"
    and rest: "\<forall>(sy, p) \<in> set ps. position_ok cfg data d sy p" by auto
  from Cons.prems(1) a obtain ps2 cl2 where
    r: "scan_exits cfg d data ma use ps = Inr (ps2, cl2)"
    by (auto simp: ebind_Inr_iff Let_def split: option.splits)
  note ih = Cons.IH[OF r rest]
  show ?case
  proof (cases "map_of data sy")
    case None
    with Cons.prems(1) a r have "ps' = (sy, p) # ps2" "cl = cl2" by auto
    with ih pk show ?thesis by auto
  next
    case (Some df)
    show ?thesis
    proof (cases "index_of d df")
      case None
      with Cons.prems(1) a r Some have "ps' = (sy, p) # ps2" "cl = cl2" by auto
      with ih pk show ?thesis by auto
    next
      case (Some i)
      with Cons.prems(1) a r \<open>map_of data sy = Some df\<close>
      have "ps' = (sy, update_peak p (high (df ! i)) d) # ps2"
        and "cl = cl2 \<or> (\<exists>det. cl = (sy, i, det) # cl2)"
        by (auto simp: ebind_Inr_iff Let_def split: if_splits)
      with ih update_peak_ok[OF pk] Some \<open>map_of data sy = Some df\<close> show ?thesis by auto
    qed
  qed
qed

lemma check_exits_ok:
  assumes "check_exits cfg d data ma use s = Inr s'" and "book_ok cfg data d s"
    and "good_data data" and "0 \<le> slippage_pct cfg"
  shows "book_ok cfg data d s'"
proof -
  from assms(1) obtain ps' cl where
    sc: "scan_exits cfg d data ma use (positions s) = Inr (ps', cl)"
    and ce: "close_each cfg data cl (s\<lparr>positions := ps'\<rparr>) = Inr s'"
    by (auto simp: check_exits_def ebind_Inr_iff)
  from assms(2) have "\<forall>(sy, p) \<in> set (positions s). position_ok cfg data d sy p"
    by (simp add: book_ok_def)
  from scan_exits_ok[OF sc this] assms(2)
  have b: "book_ok cfg data d (s\<lparr>positions := ps'\<rparr>)"
    and c: "\<forall>(sy, i, det) \<in> set cl. \<exists>df. map_of data sy = Some df \<and> index_of d df = Some i"
    by (simp_all add: book_ok_def)
  from close_each_ok[OF ce b assms(3,4) c] show ?thesis .
qed

lemma set_update_subset: "set (AList.update k v al) \<subseteq> insert (k, v) (set al)"
  by (induction al) auto

lemma open_position_ok:
  assumes "open_position cfg sy d price df s = Inr s'" and "book_ok cfg data d s"
    and "good_data data" and "map_of data sy = Some df"
    and "\<exists>r \<in> set df. timestamp r = d \<and> close r = price"
  shows "book_ok cfg data d s'"
proof -
  from open_position_cases[OF assms(1)]
  consider "s' = s"
    | idx p where "index_of d df = Some idx" "trades s' = trades s"
        "positions s' = AList.update sy p (positions s)"
        "entry_date p = d" "entry_index p = idx"
        "entry_price p = price * (1 + slippage_pct cfg)" "peak_price p = entry_price p"
    by (elim disjE exE conjE) (simp, fastforce)
  then show ?thesis
  proof cases
    case 1
    with assms(2) show ?thesis by simp
  next
    case 2
    from index_of_Some[OF 2(1)] have i: "idx < length df" "timestamp (df ! idx) = d" by simp_all
    from assms(3,4) have gf: "good_frame df" by (simp add: good_data_def)
    from assms(5) obtain r where r: "r \<in> set df" "timestamp r = d" "close r = price" by blast
    from gf i r have "r = df ! idx"
      by (auto simp: good_frame_def intro: sorted_row_unique)
    with r(3) 2 i assms(4) have "position_ok cfg data d sy p"
      by (auto simp: position_ok_def)
    with assms(2) 2(2,3) set_update_subset[of sy p "positions s"] show ?thesis
      by (auto simp: book_ok_def)
  qed
qed

lemma entry_opportunities_ok:
  "opp \<in> set (entry_opportunities d ps signals) \<Longrightarrow>
     opp_date opp = d
   \<and> (\<exists>sdf. (opp_symbol opp, sdf) \<in> set signals
         \<and> (\<exists>r \<in> set sdf. timestamp r = d \<and> close r = opp_price opp))"
proof (induction signals)
  case Nil
  then show ?case by simp
next
  case (Cons a signals)
  obtain sy sdf where a: "a = (sy, sdf)" by (cases a)
  show ?case
  proof (cases "opp \<in> set (entry_opportunities d ps signals)")
    case True
    from Cons.IH[OF this] show ?thesis by auto
  next
    case False
    with Cons.prems a obtain r rs where
      f: "filter (\<lambda>r. timestamp r = d \<and> entry_signal r) sdf = r # rs"
      and o: "opp = \<lparr>opp_symbol = sy, opp_date = d, opp_price = close r,
                      opp_strength = signal_strength r\<rparr>"
      by (auto split: if_splits list.splits)
    from f have "r \<in> set (filter (\<lambda>r. timestamp r = d \<and> entry_signal r) sdf)" by simp
    then have "r \<in> set sdf" "timestamp r = d" by simp_all
    with o a show ?thesis by auto
  qed
qed

lemma open_each_ok:
  "open_each cfg data opps s = Inr s' \<Longrightarrow> book_ok cfg data d s \<Longrightarrow> good_data data \<Longrightarrow>
   \<forall>opp \<in> set opps. opp_date opp = d
      \<and> (\<exists>df. map_of data (opp_symbol opp) = Some df
            \<and> (\<exists>r \<in> set df. timestamp r = d \<and> close r = opp_price opp)) \<Longrightarrow>
   book_ok cfg data d s'"
proof (induction opps arbitrary: s)
  case Nil
  then show ?case by simp
next
  case (Cons opp opps)
  from Cons.prems(4) obtain df where
    df: "map_of data (opp_symbol opp) = Some df" "opp_date opp = d"
       "\<exists>r \<in> set df. timestamp r = d \<and> close r = opp_price opp"
    by auto
  from Cons.prems(1) df obtain s1 where
    s1: "open_position cfg (opp_symbol opp) d (opp_price opp) df s = Inr s1"
    and rest: "open_each cfg data opps s1 = Inr s'"
    by (auto simp: ebind_Inr_iff)
  from open_position_ok[OF s1 Cons.prems(2,3) df(1,3)] have "book_ok cfg data d s1" .
  from Cons.IH[OF rest this Cons.prems(3)] Cons.prems(4) show ?case by simp
qed

lemma check_entries_ok:
  assumes "check_entries cfg d signals data s = Inr s'" and "book_ok cfg data d s"
    and "good_data data" and "\<forall>(sy, sdf) \<in> set signals. map_of data sy = Some sdf"
  shows "book_ok cfg data d s'"
proof -
  from assms(1) obtain r where r: "check_daily_loss_limit cfg d s = Inr r"
    by (auto simp: check_entries_def ebind_Inr_iff)
  obtain stop s1 where r': "r = (stop, s1)" by (cases r)
  from check_daily_loss_limit_ledger[of cfg d s stop s1] r r' assms(2)
  have b1: "book_ok cfg data d s1" by (simp add: book_ok_def)
  show ?thesis
  proof (cases stop)
    case True
    with assms(1) r r' b1 show ?thesis by (simp add: check_entries_def)
  next
    case False
    with assms(1) r r' obtain s2 where w: "check_weekly_loss_limit cfg d s1 = Inr s2"
      by (auto simp: check_entries_def ebind_Inr_iff)
    from check_weekly_loss_limit_ledger[OF w] b1 have b2: "book_ok cfg data d s2"
      by (simp add: book_ok_def)
    let ?opps = "take (nat (bt_max_positions cfg - int (length (positions s2))))
                   (sort_by_strength (entry_opportunities d (positions s2) signals))"
    from assms(1) r r' False w have "s' = s2 \<or> open_each cfg data ?opps s2 = Inr s'"
      by (auto simp: check_entries_def Let_def split: if_splits)
    then show ?thesis
    proof
      assume "s' = s2"
      with b2 show ?thesis by simp
    next
      assume oe: "open_each cfg data ?opps s2 = Inr s'"
      have "\<forall>opp \<in> set ?opps. opp_date opp = d
          \<and> (\<exists>df. map_of data (opp_symbol opp) = Some df
                \<and> (\<exists>r \<in> set df. timestamp r = d \<and> close r = opp_price opp))"
      proof
        fix opp assume "opp \<in> set ?opps"
        then have "opp \<in> set (entry_opportunities d (positions s2) signals)"
          using take_sorted_subset by blast
        from entry_opportunities_ok[OF this] assms(4)
        show "opp_date opp = d
          \<and> (\<exists>df. map_of data (opp_symbol opp) = Some df
                \<and> (\<exists>r \<in> set df. timestamp r = d \<and> close r = opp_price opp))"
          by fastforce
      qed
      from open_each_ok[OF oe b2 assms(3) this] show ?thesis .
    qed
  qed
qed

lemma update_equity_ok: "book_ok cfg data d s \<Longrightarrow> book_ok cfg data d (update_equity d' data s)"
  by (simp add: update_equity_def Let_def book_ok_def)

lemma day_step_ok:
  assumes "day_step cfg signals data ma use d s = Inr s'" and "book_ok cfg data d s"
    and "good_data data" and "0 \<le> slippage_pct cfg"
    and "\<forall>(sy, sdf) \<in> set signals. map_of data sy = Some sdf"
  shows "book_ok cfg data d s'"
proof -
  from assms(1) obtain s1 s2 where
    a: "check_exits cfg d data ma use s = Inr s1"
    and b: "check_entries cfg d signals data s1 = Inr s2"
    and c: "s' = update_equity d data s2"
    by (auto simp: day_step_def ebind_Inr_iff)
  from check_entries_ok[OF b check_exits_ok[OF a assms(2,3,4)] assms(3,5)] c
  show ?thesis by (simp add: update_equity_ok)
qed

lemma run_loop_ok:
  "run_loop cfg signals data ma use ds s = Inr s' \<Longrightarrow> book_ok cfg data d0 s \<Longrightarrow>
   sorted (d0 # ds) \<Longrightarrow> good_data data \<Longrightarrow> 0 \<le> slippage_pct cfg \<Longrightarrow>
   \<forall>(sy, sdf) \<in> set signals. map_of data sy = Some sdf \<Longrightarrow>
   book_ok cfg data (last (d0 # ds)) s'"
proof (induction ds arbitrary: s d0)
  case Nil
  then show ?case by simp
next
  case (Cons d ds)
  from Cons.prems(1) obtain s1 where
    a: "day_step cfg signals data ma use d s = Inr s1"
    and b: "run_loop cfg signals data ma use ds s1 = Inr s'"
    by (auto simp: ebind_Inr_iff)
  from Cons.prems(3) have le: "d0 \<le> d" and srt: "sorted (d # ds)" by simp_all
  from day_step_ok[OF a book_ok_mono[OF Cons.prems(2) le] Cons.prems(4,5,6)]
  have "book_ok cfg data d s1" .
  from Cons.IH[OF b this srt Cons.prems(4,5,6)] show ?case by simp
qed

lemma close_all_loop_ok:
  "close_all_loop cfg data sys s = Inr s' \<Longrightarrow> book_ok cfg data d s \<Longrightarrow> good_data data \<Longrightarrow>
   0 \<le> slippage_pct cfg \<Longrightarrow> book_ok cfg data d s'"
proof (induction sys arbitrary: s)
  case Nil
  then show ?case by simp
next
  case (Cons sy sys)
  from Cons.prems(1) obtain p df where
    p: "map_of (positions s) sy = Some p" and df: "map_of data sy = Some df" and ne: "df \<noteq> []"
    by (auto split: option.splits if_splits)
  with Cons.prems(1) obtain det s1 where
    c: "close_position cfg sy (length df - 1) det df s = Inr s1"
    and rest: "close_all_loop cfg data sys s1 = Inr s'"
    by (auto simp: ebind_Inr_iff Let_def)
  from ne have i: "length df - 1 < length df" by simp
  have le: "entry_index q \<le> length df - 1" if "map_of (positions s) sy = Some q" for q
  proof -
    from that have "(sy, q) \<in> set (positions s)" by (rule map_of_SomeD)
    with Cons.prems(2) have "position_ok cfg data d sy q" by (auto simp: book_ok_def)
    with df have "entry_index q < length df" by (auto simp: position_ok_def)
    then show ?thesis by simp
  qed
  have "book_ok cfg data d s1"
    by (rule close_position_ok[OF c Cons.prems(2,3,4) df i le])
  from Cons.IH[OF rest this Cons.prems(3,4)] show ?case .
qed

lemma build_signals_data:
  "(sy, sdf) \<in> set (build_signals symbols data) \<Longrightarrow> map_of data sy = Some sdf"
proof -
  have "(sy, sdf) \<in> set (fold (\<lambda>sy signals. case map_of data sy of
                             None \<Rightarrow> signals
                           | Some df \<Rightarrow> AList.update sy df signals) symbols acc) \<Longrightarrow>
        \<forall>(k, v) \<in> set acc. map_of data k = Some v \<Longrightarrow> map_of data sy = Some sdf" for acc
  proof (induction symbols arbitrary: acc)
    case Nil
    then show ?case by auto
  next
    case (Cons a symbols)
    show ?case
    proof (cases "map_of data a")
      case None
      with Cons show ?thesis by simp
    next
      case (Some df)
      with Cons.prems(2) set_update_subset[of a df acc]
      have "\<forall>(k, v) \<in> set (AList.update a df acc). map_of data k = Some v" by auto
      with Cons.IH[of "AList.update a df acc"] Cons.prems(1) Some show ?thesis by simp
    qed
  qed
  then show "(sy, sdf) \<in> set (build_signals symbols data) \<Longrightarrow> map_of data sy = Some sdf"
    by (simp add: build_signals_def)
qed

lemma init_ok: "book_ok cfg data d (init cfg)"
  by (simp add: book_ok_def init_def)

lemma run_ok:
  assumes "run cfg symbols data ma use = Inr s'" and "good_data data" and "0 \<le> slippage_pct cfg"
  shows "\<forall>t \<in> set (trades s'). trade_ok t"
proof -
  let ?sig = "build_signals symbols data"
  from assms(1) obtain s1 where
    a: "run_loop cfg ?sig data ma use (trading_days ?sig) (init cfg) = Inr s1"
    and b: "close_all_loop cfg data (map fst (positions s1)) s1 = Inr s'"
    by (auto simp: run_def Let_def ebind_Inr_iff close_all_positions_def)
  have sub: "\<forall>(sy, sdf) \<in> set ?sig. map_of data sy = Some sdf"
    using build_signals_data by blast
  have srt: "sorted (trading_days ?sig)" by (simp add: trading_days_def)
  show ?thesis
  proof (cases "trading_days ?sig")
    case Nil
    with a have "s1 = init cfg" by simp
    with b have "s' = init cfg" by (simp add: init_def)
    then show ?thesis by (simp add: init_def)
  next
    case (Cons d0 ds)
    from srt Cons have s2: "sorted (d0 # d0 # ds)" by simp
    from a Cons have a': "run_loop cfg ?sig data ma use (d0 # ds) (init cfg) = Inr s1" by simp
    have "book_ok cfg data (last (d0 # d0 # ds)) s1"
      by (rule run_loop_ok[OF a' init_ok s2 assms(2,3) sub])
    from close_all_loop_ok[OF b this assms(2,3)] show ?thesis by (simp add: book_ok_def)
  qed
qed

lemma universe_exits_rows:
  "(sy, i, det) \<in> set (universe_exits d universe data ps) \<Longrightarrow>
     \<exists>df. map_of data sy = Some df \<and> index_of d df = Some i"
  by (induction ps) (auto split: option.splits if_splits)

lemma universe_exits_ok:
  "\<forall>(sy, i, det) \<in> set (universe_exits d universe data ps).
      \<exists>df. map_of data sy = Some df \<and> index_of d df = Some i"
  using universe_exits_rows by blast

lemma entry_opportunities_filtered_sub:
  "opp \<in> set (entry_opportunities_filtered d universe ps signals) \<Longrightarrow>
     opp \<in> set (entry_opportunities d ps signals)"
  by (induction signals) (auto split: list.splits if_splits)

lemma check_entries_filtered_ok:
  assumes "check_entries_filtered cfg d signals data universe s = Inr s'" and "book_ok cfg data d s"
    and "good_data data" and "\<forall>(sy, sdf) \<in> set signals. map_of data sy = Some sdf"
  shows "book_ok cfg data d s'"
proof -
  let ?opps = "take (nat (bt_max_positions cfg - int (length (positions s))))
                 (sort_by_strength (entry_opportunities_filtered d universe (positions s) signals))"
  from assms(1) have "s' = s \<or> open_each cfg data ?opps s = Inr s'"
    by (auto simp: check_entries_filtered_def Let_def split: if_splits)
  then show ?thesis
  proof
    assume "s' = s"
    with assms(2) show ?thesis by simp
  next
    assume oe: "open_each cfg data ?opps s = Inr s'"
    have "\<forall>opp \<in> set ?opps. opp_date opp = d
        \<and> (\<exists>df. map_of data (opp_symbol opp) = Some df
              \<and> (\<exists>r \<in> set df. timestamp r = d \<and> close r = opp_price opp))"
    proof
      fix opp assume "opp \<in> set ?opps"
      then have "opp \<in> set (entry_opportunities d (positions s) signals)"
        using take_sorted_subset entry_opportunities_filtered_sub by blast
      from entry_opportunities_ok[OF this] assms(4)
      show "opp_date opp = d
        \<and> (\<exists>df. map_of data (opp_symbol opp) = Some df
              \<and> (\<exists>r \<in> set df. timestamp r = d \<and> close r = opp_price opp))"
        by fastforce
    qed
    from open_each_ok[OF oe assms(2,3) this] show ?thesis .
  qed
qed

lemma realistic_step_ok:
  assumes "realistic_step cfg signals data ma use universe d s = Inr s'" and "book_ok cfg data d s"
    and "good_data data" and "0 \<le> slippage_pct cfg"
    and "\<forall>(sy, sdf) \<in> set signals. map_of data sy = Some sdf"
  shows "book_ok cfg data d s'"
proof -
  from assms(1) obtain s1 s2 s3 where
    a: "close_each cfg data (universe_exits d universe data (positions s)) s = Inr s1"
    and b: "check_exits cfg d data ma use s1 = Inr s2"
    and c: "check_entries_filtered cfg d signals data universe s2 = Inr s3"
    and e: "s' = update_equity d data s3"
    by (auto simp: realistic_step_def check_universe_exits_def ebind_Inr_iff)
  from close_each_ok[OF a assms(2,3,4) universe_exits_ok] have "book_ok cfg data d s1" .
  from check_entries_filtered_ok[OF c check_exits_ok[OF b this assms(3,4)] assms(3,5)] e
  show ?thesis by (simp add: update_equity_ok)
qed

lemma realistic_loop_ok:
  "realistic_loop cfg signals data ma use updates universe ds s = Inr s' \<Longrightarrow>
   book_ok cfg data d0 s \<Longrightarrow> sorted (d0 # ds) \<Longrightarrow> good_data data \<Longrightarrow>
   0 \<le> slippage_pct cfg \<Longrightarrow> \<forall>(sy, sdf) \<in> set signals. map_of data sy = Some sdf \<Longrightarrow>
   book_ok cfg data (last (d0 # ds)) s'"
proof (induction ds arbitrary: s d0 updates universe)
  case Nil
  then show ?case by simp
next
  case (Cons d ds)
  from Cons.prems(1) obtain updates' universe' s1 where
    a: "realistic_step cfg signals data ma use universe' d s = Inr s1"
    and b: "realistic_loop cfg signals data ma use updates' universe' ds s1 = Inr s'"
    by (auto simp: ebind_Inr_iff Let_def split: prod.splits)
  from Cons.prems(3) have le: "d0 \<le> d" and srt: "sorted (d # ds)" by simp_all
  from realistic_step_ok[OF a book_ok_mono[OF Cons.prems(2) le] Cons.prems(4,5,6)]
  have "book_ok cfg data d s1" .
  from Cons.IH[OF b this srt Cons.prems(4,5,6)] show ?case by simp
qed

lemma realistic_ok:
  assumes "realistic_loop cfg signals data ma use updates universe ds (init cfg) = Inr s1"
    and "close_all_positions cfg data s1 = Inr s'" and "sorted ds"
    and "good_data data" and "0 \<le> slippage_pct cfg"
    and "\<forall>(sy, sdf) \<in> set signals. map_of data sy = Some sdf"
  shows "\<forall>t \<in> set (trades s'). trade_ok t"
proof -
  from assms(2) have b: "close_all_loop cfg data (map fst (positions s1)) s1 = Inr s'"
    by (simp add: close_all_positions_def)
  show ?thesis
  proof (cases ds)
    case Nil
    with assms(1) have "s1 = init cfg" by simp
    with b have "s' = init cfg" by (simp add: init_def)
    then show ?thesis by (simp add: init_def)
  next
    case (Cons d0 ds')
    from assms(3) Cons have s2: "sorted (d0 # d0 # ds')" by simp
    from assms(1) Cons have a':
      "realistic_loop cfg signals data ma use updates universe (d0 # ds') (init cfg) = Inr s1"
      by simp
    have "book_ok cfg data (last (d0 # d0 # ds')) s1"
      by (rule realistic_loop_ok[OF a' init_ok s2 assms(4,5,6)])
    from close_all_loop_ok[OF b this assms(4,5)] show ?thesis by (simp add: book_ok_def)
  qed
qed

section \<open>Adverse excursion and peak of a trade\<close>

text \<open>
  C8. Over price data that keeps the provider's contract (timestamps strictly
  increasing, positive prices, each low at most its close) and with
  \<open>slippage_pct \<ge> 0\<close>, every trade recorded by a completed run, of the plain engine
  or of the realistic loop, has \<open>max_adverse_excursion \<le> 0\<close> and
  \<open>peak_price \<ge> entry_price\<close>: a position's peak starts at its entry price after
  slippage, and \<^verbatim>\<open>update_peak\<close> only ever raises it.
\<close>

theorem trades_mae_and_peak:
  "(run cfg symbols data ma use = Inr s' \<and> good_data data \<and> 0 \<le> slippage_pct cfg
      \<longrightarrow> (\<forall>t \<in> set (trades s').
             (\<exists>m. max_adverse_excursion t = Some m \<and> m \<le> 0)
           \<and> t_entry_price t \<le> t_peak_price t))
 \<and> (realistic_loop cfg signals data ma use updates universe ds (init cfg) = Inr s1
      \<and> close_all_positions cfg data s1 = Inr s2 \<and> sorted ds
      \<and> (\<forall>(sy, sdf) \<in> set signals. map_of data sy = Some sdf)
      \<and> good_data data \<and> 0 \<le> slippage_pct cfg
      \<longrightarrow> (\<forall>t \<in> set (trades s2).
             (\<exists>m. max_adverse_excursion t = Some m \<and> m \<le> 0)
           \<and> t_entry_price t \<le> t_peak_price t))
 \<and> (open_position cfg sy date price df s = Inr s3
      \<and> int (length (positions s)) < max_positions (sizer s)
      \<longrightarrow> (\<exists>p. map_of (positions s3) sy = Some p
             \<and> entry_price p = price * (1 + slippage_pct cfg)
             \<and> peak_price p = entry_price p))
 \<and> peak_price p \<le> peak_price (update_peak p x d)
 \<and> entry_price (update_peak p x d) = entry_price p"
proof (intro conjI impI)
  assume "run cfg symbols data ma use = Inr s' \<and> good_data data \<and> 0 \<le> slippage_pct cfg"
  then have "\<forall>t \<in> set (trades s'). trade_ok t" using run_ok by blast
  then show "\<forall>t \<in> set (trades s').
             (\<exists>m. max_adverse_excursion t = Some m \<and> m \<le> 0)
           \<and> t_entry_price t \<le> t_peak_price t"
    by (simp add: trade_ok_def)
next
  assume "realistic_loop cfg signals data ma use updates universe ds (init cfg) = Inr s1
      \<and> close_all_positions cfg data s1 = Inr s2 \<and> sorted ds
      \<and> (\<forall>(sy, sdf) \<in> set signals. map_of data sy = Some sdf)
      \<and> good_data data \<and> 0 \<le> slippage_pct cfg"
  then have "\<forall>t \<in> set (trades s2). trade_ok t" using realistic_ok by blast
  then show "\<forall>t \<in> set (trades s2).
             (\<exists>m. max_adverse_excursion t = Some m \<and> m \<le> 0)
           \<and> t_entry_price t \<le> t_peak_price t"
    by (simp add: trade_ok_def)
next
  assume h: "open_position cfg sy date price df s = Inr s3
      \<and> int (length (positions s)) < max_positions (sizer s)"
  then have o: "open_position cfg sy date price df s = Inr s3" by simp
  from h obtain sizing where
    sz: "calculate_position_size (sizer s) (price * (1 + slippage_pct cfg))
           (int (length (positions s))) = Inr sizing" and co: "can_open sizing"
    by (auto simp: open_position_def Let_def ebind_Inr_iff calculate_position_size_def)
  from o sz co obtain idx where idx: "index_of date df = Some idx"
    by (auto simp: open_position_def Let_def split: option.splits)
  from o sz co idx show "\<exists>p. map_of (positions s3) sy = Some p
             \<and> entry_price p = price * (1 + slippage_pct cfg)
             \<and> peak_price p = entry_price p"
    by (auto simp: open_position_def Let_def AList.update_conv')
next
  show "peak_price p \<le> peak_price (update_peak p x d)" by (simp add: update_peak_def)
  show "entry_price (update_peak p x d) = entry_price p" by (simp add: update_peak_def)
qed

theorem trades_mae_and_peak_witness:
  "\<exists>s' t. run ex_cfg [''AAA''] ex_data 20 True = Inr s' \<and> good_data ex_data
      \<and> 0 \<le> slippage_pct ex_cfg
      \<and> trades s' = [t]
      \<and> (\<exists>m. max_adverse_excursion t = Some m \<and> m \<le> 0)
      \<and> t_entry_price t \<le> t_peak_price t"
proof -
  have g: "good_data ex_data"
    by (simp add: good_data_def good_frame_def ex_data_def ex_bars_def)
  have sl: "0 \<le> slippage_pct ex_cfg" by (simp add: ex_cfg_def)
  have "case run ex_cfg [''AAA''] ex_data 20 True of
          Inl e \<Rightarrow> False | Inr s' \<Rightarrow> length (trades s') = 1"
    by code_simp
  then obtain s' where r: "run ex_cfg [''AAA''] ex_data 20 True = Inr s'"
    and l: "length (trades s') = 1"
    by (auto split: sum.splits)
  from l obtain t where t: "trades s' = [t]"
    by (cases "trades s'") auto
  from trades_mae_and_peak
    [where cfg = ex_cfg and symbols = "[''AAA'']" and data = ex_data and ma = 20 and use = True
       and s' = s', THEN conjunct1, rule_format, OF conjI[OF r conjI[OF g sl]]] t
  have "(\<exists>m. max_adverse_excursion t = Some m \<and> m \<le> 0) \<and> t_entry_price t \<le> t_peak_price t"
    by simp
  with r g sl t show ?thesis by blast
qed

end
